theory Spec2Isabelle
  imports Complex_Main "HOL-Library.Char_ord" "HOL-Library.List_Lexorder"
    "HOL-Library.Product_Lexorder"
begin

section \<open>Python values used by highest\_win\_rate.py\<close>

text \<open>
  Exceptions are values. Only the classes the script can raise are modelled; the string is
  the exception's argument (for \<open>KeyError\<close> the missing key, for \<open>ValueError\<close> raised by
  \<open>_strip_up_to\<close> the directory name that was searched for). \<open>LookupError\<close> is the base
  class of \<open>KeyError\<close> and \<open>IndexError\<close> only; \<open>ValueError\<close>, \<open>TypeError\<close> and
  \<open>OSError\<close> are not below it.
\<close>

datatype error =
  ValueError string | KeyError string | IndexError string | TypeError string | OSError string

fun is_LookupError :: "error \<Rightarrow> bool" where
  "is_LookupError (KeyError _) = True"
| "is_LookupError (IndexError _) = True"
| "is_LookupError _ = False"

text \<open>
  A Python float: the real number it denotes, or NaN. Comparison of two floats is the
  comparison of the numbers they denote, and is false when either is NaN. Floating-point
  arithmetic is not computed here: where the script takes a mean, the float64 result of
  \<open>numpy.mean\<close> is a parameter.
\<close>

datatype pyfloat = Num real | NaN

fun py_gt :: "pyfloat \<Rightarrow> pyfloat \<Rightarrow> bool" where
  "py_gt (Num a) (Num b) = (b < a)"
| "py_gt _ _ = False"

text \<open>\<open>v[i:]\<close> for any integer \<open>i\<close>: a negative start counts from the end and is clipped
  at the front of the list.\<close>

definition slice_from :: "int \<Rightarrow> 'a list \<Rightarrow> 'a list" where
  "slice_from i v =
     (if i < 0 then drop (nat (max (int (length v) + i) 0)) v else drop (nat i) v)"

text \<open>
  \<open>numpy.mean\<close> of a list of floats: NaN (with a warning, no exception) when the list is
  empty, and otherwise the float64 number that numpy's summation and division give for
  it, \<open>float_mean v\<close>. Nothing is assumed of that number; it is close to the arithmetic mean
  and in general not equal to it.
\<close>

definition np_mean :: "(real list \<Rightarrow> real) \<Rightarrow> real list \<Rightarrow> pyfloat" where
  "np_mean float_mean v = (if v = [] then NaN else Num (float_mean v))"

section \<open>Event logs and \<open>get_stats\<close>\<close>

text \<open>What \<open>tf.train.summary_iterator\<close> yields: events with a step and summary values.\<close>

record summary_value =
  tag :: string
  simple_value :: real

record event =
  step :: int
  summary :: "summary_value list"

definition tracked_tags :: "string list" where
  "tracked_tags = [''game_win0'', ''game_win1'', ''game_tie'']"

text \<open>\<open>events[k].append(x)\<close> on a \<open>defaultdict(list)\<close>; the dict keeps insertion order.\<close>

fun dd_append :: "'k \<Rightarrow> 'a \<Rightarrow> ('k \<times> 'a list) list \<Rightarrow> ('k \<times> 'a list) list" where
  "dd_append k x [] = [(k, [x])]"
| "dd_append k x ((k', v) # d) =
     (if k' = k then (k', v @ [x]) # d else (k', v) # dd_append k x d)"

text \<open>Reading \<open>events[k]\<close> on a \<open>defaultdict(list)\<close> stores an empty list for a missing key.\<close>

fun dd_touch :: "'k \<Rightarrow> ('k \<times> 'a list) list \<Rightarrow> ('k \<times> 'a list) list" where
  "dd_touch k [] = [(k, [])]"
| "dd_touch k ((k', v) # d) = (if k' = k then (k', v) # d else (k', v) # dd_touch k d)"

type_synonym stats_state = "(string \<times> real list) list \<times> int"

text \<open>The inner loop over \<open>event.summary.value\<close>; the state is \<open>(events, last_step)\<close>.\<close>

fun read_values :: "int \<Rightarrow> summary_value list \<Rightarrow> stats_state \<Rightarrow> stats_state" where
  "read_values st [] s = s"
| "read_values st (x # xs) (events, last_step) =
     (if tag x \<in> set tracked_tags
      then read_values st xs (dd_append (tag x) (simple_value x) events, st)
      else read_values st xs (events, last_step))"

fun read_events :: "event list \<Rightarrow> stats_state \<Rightarrow> stats_state" where
  "read_events [] s = s"
| "read_events (e # es) s = read_events es (read_values (step e) (summary e) s)"

text \<open>
  \<open>get_stats\<close> on the decoded log. The logging line reads \<open>events['game_win0']\<close>, which
  happens before the means are computed; the means are over \<open>v[-episode_window:]\<close>.
\<close>

definition get_stats ::
    "(real list \<Rightarrow> real) \<Rightarrow> event list \<Rightarrow> int \<Rightarrow> (string \<times> pyfloat) list" where
  "get_stats float_mean evs episode_window =
     (let (events, last_step) = read_events evs ([], 0);
          events = dd_touch ''game_win0'' events
      in map (\<lambda>(k, v). (k, np_mean float_mean (slice_from (- episode_window) v))) events)"

text \<open>The values recorded for a tag, in emission order (the metric window of the spec).\<close>

definition recorded :: "event list \<Rightarrow> string \<Rightarrow> real list" where
  "recorded evs t =
     map simple_value (filter (\<lambda>x. tag x = t) (concat (map summary evs)))"

section \<open>Paths\<close>

text \<open>\<open>s.split(c)\<close> for a one-character separator: never empty, keeps empty segments.\<close>

fun split_on :: "char \<Rightarrow> string \<Rightarrow> string list" where
  "split_on c [] = [[]]"
| "split_on c (x # xs) =
     (if x = c then [] # split_on c xs
      else (case split_on c xs of [] \<Rightarrow> [[x]] | w # ws \<Rightarrow> (x # w) # ws))"

definition path_split :: "string \<Rightarrow> string list" where
  "path_split p = split_on CHR ''/'' p"

text \<open>One step of \<open>posixpath.join\<close>: an absolute component restarts the path, a separator is
  inserted unless the path so far is empty or already ends with one.\<close>

definition join2 :: "string \<Rightarrow> string \<Rightarrow> string" where
  "join2 path b =
     (if b \<noteq> [] \<and> hd b = CHR ''/'' then b
      else if path = [] \<or> last path = CHR ''/'' then path @ b
      else path @ ''/'' @ b)"

text \<open>\<open>os.path.join(*components)\<close>: with no argument at all the call is a \<open>TypeError\<close>.\<close>

definition path_join :: "string list \<Rightarrow> error + string" where
  "path_join components =
     (case components of
        [] \<Rightarrow> Inl (TypeError ''join() missing 1 required positional argument'')
      | a # p \<Rightarrow> Inr (foldl join2 a p))"

text \<open>\<open>os.path.sep.join(components)\<close>.\<close>

fun sep_join :: "string list \<Rightarrow> string" where
  "sep_join [] = []"
| "sep_join [a] = a"
| "sep_join (a # b # r) = a @ ''/'' @ sep_join (b # r)"

text \<open>\<open>xs.index(x)\<close>: the first position of \<open>x\<close>, or no position (\<open>ValueError\<close> in Python).\<close>

fun index_of :: "'a list \<Rightarrow> 'a \<Rightarrow> nat option" where
  "index_of [] x = None"
| "index_of (y # ys) x = (if y = x then Some 0 else map_option Suc (index_of ys x))"

text \<open>\<open>sub in s\<close> on strings.\<close>

fun starts_with :: "string \<Rightarrow> string \<Rightarrow> bool" where
  "starts_with s [] = True"
| "starts_with [] (c # sub) = False"
| "starts_with (x # s) (c # sub) = (x = c \<and> starts_with s sub)"

fun contains :: "string \<Rightarrow> string \<Rightarrow> bool" where
  "contains [] sub = (sub = [])"
| "contains (x # s) sub = (starts_with (x # s) sub \<or> contains s sub)"

definition strip_up_to :: "string \<Rightarrow> string \<Rightarrow> error + string" where
  "strip_up_to path dirname =
     (let path_components = path_split path;
          path_components =
            (if hd path_components = [] then ''/'' # tl path_components else path_components)
      in case index_of (rev path_components) dirname of
           None \<Rightarrow> Inl (ValueError dirname)
         | Some i \<Rightarrow>
             (let path_index = length path_components - 1 - i
              in path_join (take path_index path_components)))"

definition get_final_model_path :: "string \<Rightarrow> error + string" where
  "get_final_model_path event_path =
     (case strip_up_to event_path ''rl'' of
        Inl e \<Rightarrow> Inl e
      | Inr root_dir \<Rightarrow>
          (let abs_path = join2 root_dir ''final_model'';
               components = path_split abs_path;
               components =
                 (case index_of components ''multi_train'' of
                    Some multi_train_start \<Rightarrow> drop multi_train_start components
                  | None \<Rightarrow> components)
           in Inr (sep_join components)))"

section \<open>Directory walk and \<open>event_files\<close>\<close>

text \<open>
  What \<open>os.walk\<close> sees below a directory: the names of its files and its subdirectories
  (symbolic links followed), each with its own content. The tree is finite.
\<close>

datatype dir = Dir (files: "string list") (dirs: "(string \<times> dir) list")

text \<open>
  \<open>event_files\<close> as the list of the paths it yields, in order. \<open>os.walk\<close> visits a
  directory, then the subdirectories left in \<open>dirs\<close> by the loop body, each under
  \<open>os.path.join(root, name)\<close>. \<open>event_files_dirs\<close> is the walk over that list; an entry
  named \<open>checkpoint\<close> is the one the body has filtered out of \<open>dirs\<close>.
\<close>

fun event_files :: "string \<Rightarrow> dir \<Rightarrow> string list"
  and event_files_dirs :: "string \<Rightarrow> (string \<times> dir) list \<Rightarrow> string list" where
  "event_files root_dir (Dir fs ds) =
     (if slice_from (- 2) (path_split root_dir) = [''rl'', ''tb'']
      then map (join2 root_dir) (filter (\<lambda>name. contains name ''tfevents'') fs)
      else [])
     @ event_files_dirs root_dir ds"
| "event_files_dirs root_dir [] = []"
| "event_files_dirs root_dir ((name, d) # ds) =
     (if name \<noteq> ''checkpoint'' then event_files (join2 root_dir name) d else [])
     @ event_files_dirs root_dir ds"

section \<open>Dictionaries\<close>

text \<open>A \<open>dict\<close> is an association list in insertion order with one entry for each key.\<close>

text \<open>\<open>d[k] = v\<close>.\<close>

fun dict_set :: "'k \<Rightarrow> 'v \<Rightarrow> ('k \<times> 'v) list \<Rightarrow> ('k \<times> 'v) list" where
  "dict_set k v [] = [(k, v)]"
| "dict_set k v ((k', v') # d) = (if k' = k then (k', v) # d else (k', v') # dict_set k v d)"

text \<open>\<open>d[k]\<close> on a plain \<open>dict\<close> of string keys: \<open>KeyError\<close> when the key is missing.\<close>

definition dict_get :: "(string \<times> 'v) list \<Rightarrow> string \<Rightarrow> error + 'v" where
  "dict_get d k = (case map_of d k of None \<Rightarrow> Inl (KeyError k) | Some v \<Rightarrow> Inr v)"

text \<open>\<open>d[k]\<close> on a \<open>defaultdict\<close> whose factory returns \<open>dflt\<close>: the value read and the
  dict afterwards, in which a missing key has been stored with the default.\<close>

definition dd_get :: "'k \<Rightarrow> 'v \<Rightarrow> ('k \<times> 'v) list \<Rightarrow> 'v \<times> ('k \<times> 'v) list" where
  "dd_get k dflt d =
     (case map_of d k of None \<Rightarrow> (dflt, d @ [(k, dflt)]) | Some v \<Rightarrow> (v, d))"

text \<open>\<open>d.setdefault(k, dflt)\<close> followed by the in-place change \<open>f\<close> of the object returned.\<close>

fun modify_default :: "'k \<Rightarrow> 'v \<Rightarrow> ('v \<Rightarrow> 'v) \<Rightarrow> ('k \<times> 'v) list \<Rightarrow> ('k \<times> 'v) list" where
  "modify_default k dflt f [] = [(k, f dflt)]"
| "modify_default k dflt f ((k', v) # d) =
     (if k' = k then (k', f v) # d else (k', v) # modify_default k dflt f d)"

section \<open>Run configuration\<close>

text \<open>
  The parsed \<open>config.json\<close> of a run, with the keys the script reads. The required keys are
  typed as the spec's input format has them (so \<open>str\<close> and \<open>int\<close> are the identity on
  them); the nested load-policy object is optional, and reading it when it is absent is a
  \<open>KeyError\<close>.
\<close>

record load_policy_cfg =
  policy_type :: string
  policy_path :: string

record config =
  env_name :: string
  victim_index :: int
  victim_type :: string
  victim_path :: string
  load_policy :: "load_policy_cfg option"

text \<open>
  What the script depends on outside itself: what \<open>os.walk\<close> finds at a log directory, what
  the event decoder yields for an event file, what \<open>open\<close> and \<open>json.load\<close> return for a
  configuration path, whether a path can be opened for writing, and the float64 number
  \<open>numpy.mean\<close> computes for a non-empty list of floats.
\<close>

record world =
  walk_tree :: "string \<Rightarrow> dir"
  summary_iterator :: "string \<Rightarrow> event list"
  load_json :: "string \<Rightarrow> error + config"
  writable :: "string \<Rightarrow> bool"
  float_mean :: "real list \<Rightarrow> real"

definition get_sacred_config :: "world \<Rightarrow> string \<Rightarrow> error + config" where
  "get_sacred_config w event_path =
     (case strip_up_to event_path ''baselines'' of
        Inl e \<Rightarrow> Inl e
      | Inr root_dir \<Rightarrow>
          load_json w (foldl join2 root_dir [''sacred'', ''train'', ''1'', ''config.json'']))"

section \<open>\<open>find_best\<close>\<close>

text \<open>\<open>str(n)\<close> for an integer, as the f-string \<open>f'game_win{our_index}'\<close> formats it.\<close>

fun str_nat :: "nat \<Rightarrow> string" where
  "str_nat n =
     (if n < 10 then [''0123456789'' ! n]
      else str_nat (n div 10) @ [''0123456789'' ! (n mod 10)])"

declare str_nat.simps [simp del]

definition str_int :: "int \<Rightarrow> string" where
  "str_int i = (if i < 0 then CHR ''-'' # str_nat (nat (- i)) else str_nat (nat i))"

type_synonym key = "string \<times> int \<times> string"

type_synonym best = "(key \<times> string) list \<times> (key \<times> pyfloat) list"

text \<open>Lines 93 to 101: the opponent identity. \<open>and\<close> evaluates its right operand, and so
  reads \<open>config['load_policy']\<close>, only when the opponent type is not \<open>zoo\<close>.\<close>

definition opponent_path :: "config \<Rightarrow> error + string" where
  "opponent_path config =
     (let opp_type = victim_type config
      in if opp_type \<noteq> ''zoo''
         then (case load_policy config of
                 None \<Rightarrow> Inl (KeyError ''load_policy'')
               | Some lp \<Rightarrow>
                   if policy_type lp = ''zoo'' then Inr (policy_path lp)
                   else Inr (victim_path config))
         else Inr (victim_path config))"

text \<open>What the read \<open>best_winrate[key]\<close> returns: the stored value, 0.0 for a new key.\<close>

definition stored_winrate :: "(key \<times> pyfloat) list \<Rightarrow> key \<Rightarrow> pyfloat" where
  "stored_winrate best_winrate k = fst (dd_get k (Num 0) best_winrate)"

text \<open>Lines 106 to 108. The comparison reads \<open>best_winrate[key]\<close> on the
  \<open>defaultdict(float)\<close>; the model path is resolved only when the record is replaced.\<close>

definition update_best :: "key \<Rightarrow> pyfloat \<Rightarrow> string \<Rightarrow> best \<Rightarrow> error + best" where
  "update_best k our_winrate event_path st =
     (let (best_policy, best_winrate) = st;
          (cur, best_winrate) = dd_get k (Num 0) best_winrate
      in if py_gt our_winrate cur
         then (case get_final_model_path event_path of
                 Inl e \<Rightarrow> Inl e
               | Inr model_path \<Rightarrow>
                   Inr (dict_set k model_path best_policy, dict_set k our_winrate best_winrate))
         else Inr (best_policy, best_winrate))"

text \<open>Lines 89 to 104 for one event path: the aggregation key and the win rate of our
  slot. \<open>get_stats\<close> runs first; the decoder is taken to yield the whole log.\<close>

definition read_entry :: "world \<Rightarrow> int \<Rightarrow> string \<Rightarrow> error + key \<times> pyfloat" where
  "read_entry w episode_window event_path =
     (let stats = get_stats (float_mean w) (summary_iterator w event_path) episode_window
      in case get_sacred_config w event_path of
           Inl e \<Rightarrow> Inl e
         | Inr config \<Rightarrow>
             (case opponent_path config of
                Inl e \<Rightarrow> Inl e
              | Inr zoo_path \<Rightarrow>
                  (let opp_index = victim_index config;
                       our_index = 1 - opp_index;
                       k = (env_name config, opp_index, zoo_path)
                   in case dict_get stats (''game_win'' @ str_int our_index) of
                        Inl e \<Rightarrow> Inl e
                      | Inr our_winrate \<Rightarrow> Inr (k, our_winrate))))"

text \<open>The body of the inner loop of \<open>find_best\<close> for one event path.\<close>

definition fold_event :: "world \<Rightarrow> int \<Rightarrow> best \<Rightarrow> string \<Rightarrow> error + best" where
  "fold_event w episode_window st event_path =
     (case read_entry w episode_window event_path of
        Inl e \<Rightarrow> Inl e
      | Inr (k, our_winrate) \<Rightarrow> update_best k our_winrate event_path st)"

fun fold_paths :: "world \<Rightarrow> int \<Rightarrow> best \<Rightarrow> string list \<Rightarrow> error + best" where
  "fold_paths w episode_window st [] = Inr st"
| "fold_paths w episode_window st (event_path # ps) =
     (case fold_event w episode_window st event_path of
        Inl e \<Rightarrow> Inl e
      | Inr st' \<Rightarrow> fold_paths w episode_window st' ps)"

fun fold_logdirs :: "world \<Rightarrow> int \<Rightarrow> best \<Rightarrow> string list \<Rightarrow> error + best" where
  "fold_logdirs w episode_window st [] = Inr st"
| "fold_logdirs w episode_window st (logdir # ls) =
     (case fold_paths w episode_window st (event_files logdir (walk_tree w logdir)) of
        Inl e \<Rightarrow> Inl e
      | Inr st' \<Rightarrow> fold_logdirs w episode_window st' ls)"

type_synonym 'v nested = "(string \<times> (int \<times> (string \<times> 'v) list) list) list"

definition unstack_step :: "'v nested \<Rightarrow> key \<times> 'v \<Rightarrow> 'v nested" where
  "unstack_step res kv =
     (case kv of ((env, opp_index, opp_path), v) \<Rightarrow>
        modify_default env [] (modify_default opp_index [] (dict_set opp_path v)) res)"

text \<open>\<open>sorted(d.items())\<close> orders the items by key: the keys of a dict are distinct, so the
  comparison of two items never reaches the values.\<close>

definition unstack :: "(key \<times> 'v) list \<Rightarrow> 'v nested" where
  "unstack d = foldl unstack_step [] (sort_key fst d)"

record result_doc =
  policies :: "string nested"
  winrates :: "pyfloat nested"

definition find_best :: "world \<Rightarrow> string list \<Rightarrow> int \<Rightarrow> error + result_doc" where
  "find_best w logdirs episode_window =
     (case fold_logdirs w episode_window ([], []) logdirs of
        Inl e \<Rightarrow> Inl e
      | Inr (best_policy, best_winrate) \<Rightarrow>
          Inr \<lparr>policies = unstack best_policy, winrates = unstack best_winrate\<rparr>)"

text \<open>The event paths of a run in discovery order: the paths \<open>event_files\<close> yields for the
  log directories, one directory after the other.\<close>

definition discovered :: "world \<Rightarrow> string list \<Rightarrow> string list" where
  "discovered w logdirs = concat (map (\<lambda>logdir. event_files logdir (walk_tree w logdir)) logdirs)"

text \<open>The leaf of a nested result at an (environment, opponent slot, opponent path) triple.\<close>

definition leaf :: "'v nested \<Rightarrow> key \<Rightarrow> 'v option" where
  "leaf res k =
     (case k of (env, opp_index, opp_path) \<Rightarrow>
        (case map_of res env of
           None \<Rightarrow> None
         | Some by_index \<Rightarrow>
             (case map_of by_index opp_index of
                None \<Rightarrow> None
              | Some by_path \<Rightarrow> map_of by_path opp_path)))"

section \<open>\<open>main\<close>\<close>

text \<open>The namespace \<open>get_args\<close> returns; \<open>nargs="+"\<close> gives at least one \<open>logdir\<close>.\<close>

record args =
  logdir :: "string list"
  episode_window :: int
  output_path :: "string option"

text \<open>What \<open>main\<close> does to the outside, in order: a warning logged, the output file opened
  for writing (created or truncated), the call of \<open>find_best\<close> (the only place where
  directories are scanned), the result serialised into the opened file.\<close>

datatype action =
  Warning string | Open_w string | Find_best "string list" int | Json_dump string result_doc

text \<open>Lines 135 to 140.\<close>

definition resolve_output_path :: "args \<Rightarrow> error + string" where
  "resolve_output_path parsed_args =
     (case output_path parsed_args of
        Some p \<Rightarrow> Inr p
      | None \<Rightarrow>
          if length (logdir parsed_args) > 1
          then Inl (ValueError ''Must specify --output_path when using multiple log directories.'')
          else (case logdir parsed_args of
                  [] \<Rightarrow> Inl (IndexError ''list index out of range'')
                | d # _ \<Rightarrow> Inr (join2 d ''highest_win_policies_and_rates.json'')))"

text \<open>\<open>main\<close> on the parsed arguments: the actions performed and the exception that ended the
  run, if any.\<close>

definition main :: "world \<Rightarrow> args \<Rightarrow> action list \<times> error option" where
  "main w parsed_args =
     (case resolve_output_path parsed_args of
        Inl e \<Rightarrow> ([], Some e)
      | Inr out \<Rightarrow>
          (let warnings =
                 map Warning
                   (filter (\<lambda>d. ''multi_train'' \<notin> set (path_split d)) (logdir parsed_args))
           in if \<not> writable w out then (warnings, Some (OSError out))
              else (case find_best w (logdir parsed_args) (episode_window parsed_args) of
                      Inl e \<Rightarrow>
                        (warnings @
                           [Open_w out, Find_best (logdir parsed_args) (episode_window parsed_args)],
                         Some e)
                    | Inr result \<Rightarrow>
                        (warnings @
                           [Open_w out, Find_best (logdir parsed_args) (episode_window parsed_args),
                            Json_dump out result],
                         None))))"

section \<open>Reference notions and example inputs\<close>

text \<open>The last \<open>n\<close> elements of a list, as the specification words the window, and the
  exact arithmetic mean. In the example logs below every window holds one value, or values
  whose sum and quotient are exact in float64 (0 and 1, four of them), so that
  \<open>numpy.mean\<close> returns the arithmetic mean on them; the example corpora take it as their
  \<open>float_mean\<close>.\<close>

definition last_values :: "nat \<Rightarrow> 'a list \<Rightarrow> 'a list" where
  "last_values n v = rev (take n (rev v))"

definition arithmetic_mean :: "real list \<Rightarrow> real" where
  "arithmetic_mean v = sum_list v / real (length v)"

text \<open>A log with four values of \<open>game_win0\<close>, an untracked tag, and no other tracked tag.\<close>

definition log_two_wins :: "event list" where
  "log_two_wins =
     [\<lparr>step = 1, summary = [\<lparr>tag = ''game_win0'', simple_value = 0\<rparr>]\<rparr>,
      \<lparr>step = 2, summary = [\<lparr>tag = ''reward'', simple_value = 3\<rparr>,
                            \<lparr>tag = ''game_win0'', simple_value = 0\<rparr>]\<rparr>,
      \<lparr>step = 3, summary = [\<lparr>tag = ''game_win0'', simple_value = 1\<rparr>]\<rparr>,
      \<lparr>step = 4, summary = [\<lparr>tag = ''game_win0'', simple_value = 1\<rparr>]\<rparr>]"

text \<open>The stored win rate is not lower than it was: unchanged, or strictly greater.\<close>

definition not_lower :: "pyfloat \<Rightarrow> pyfloat \<Rightarrow> bool" where
  "not_lower new old \<longleftrightarrow> new = old \<or> py_gt new old"

text \<open>
  A corpus with two runs \<open>a\<close> and \<open>b\<close> of the same matchup under one log directory: each has
  its event file under \<open>baselines/1/rl/tb\<close>, next to a \<open>checkpoint\<close> directory, and its
  configuration under \<open>sacred/train/1\<close>. Run \<open>a\<close> reports a win rate of 0.625 for slot 1 and
  run \<open>b\<close> one of 0.75. Each run directory can be given as a log directory of its own.
\<close>

definition run_dir :: dir where
  "run_dir =
     Dir []
       [(''baselines'',
         Dir [] [(''1'',
           Dir [] [(''rl'',
             Dir [] [(''checkpoint'', Dir [''model.pkl''] []),
                     (''tb'', Dir [''events.out.tfevents.1''] [])])])]),
        (''sacred'', Dir [] [(''train'', Dir [] [(''1'', Dir [''config.json''] [])])])]"

definition path_a :: string where
  "path_a = ''/data/multi_train/a/baselines/1/rl/tb/events.out.tfevents.1''"

definition path_b :: string where
  "path_b = ''/data/multi_train/b/baselines/1/rl/tb/events.out.tfevents.1''"

definition win1_log :: "real \<Rightarrow> event list" where
  "win1_log x =
     [\<lparr>step = 10, summary = [\<lparr>tag = ''game_win0'', simple_value = 1 - x\<rparr>,
                             \<lparr>tag = ''game_win1'', simple_value = x\<rparr>]\<rparr>]"

definition zoo_config :: config where
  "zoo_config =
     \<lparr>env_name = ''Env1'', victim_index = 0, victim_type = ''zoo'', victim_path = ''zoo/3'',
      load_policy = None\<rparr>"

definition world_ab :: world where
  "world_ab =
     \<lparr>walk_tree = (\<lambda>d. if d = ''/data/multi_train''
                         then Dir [] [(''a'', run_dir), (''b'', run_dir)]
                       else if d = ''/data/multi_train/a'' \<or> d = ''/data/multi_train/b''
                         then run_dir
                       else Dir [] []),
      summary_iterator = (\<lambda>p. if p = path_a then win1_log 0.625 else win1_log 0.75),
      load_json = (\<lambda>p. if p = ''/data/multi_train/a/sacred/train/1/config.json''
                           \<or> p = ''/data/multi_train/b/sacred/train/1/config.json''
                        then Inr zoo_config else Inl (OSError p)),
      writable = (\<lambda>p. True),
      float_mean = arithmetic_mean\<rparr>"

definition key_ab :: key where
  "key_ab = (''Env1'', 0, ''zoo/3'')"

text \<open>Configurations of a run that fine-tunes a zoo policy against a non-zoo victim, of a
  run against a non-zoo victim with a non-zoo load-policy object, and of one without any.\<close>

definition finetune_config :: config where
  "finetune_config =
     \<lparr>env_name = ''Env1'', victim_index = 0, victim_type = ''ppo2'', victim_path = ''adv/7'',
      load_policy = Some \<lparr>policy_type = ''zoo'', policy_path = ''1''\<rparr>\<rparr>"

definition scratch_config :: config where
  "scratch_config =
     \<lparr>env_name = ''Env1'', victim_index = 0, victim_type = ''ppo2'', victim_path = ''adv/7'',
      load_policy = Some \<lparr>policy_type = ''ppo2'', policy_path = ''adv/2''\<rparr>\<rparr>"

definition bare_config :: config where
  "bare_config =
     \<lparr>env_name = ''Env1'', victim_index = 0, victim_type = ''ppo2'', victim_path = ''adv/7'',
      load_policy = None\<rparr>"

text \<open>The example corpus with logs in which only \<open>game_win0\<close> was ever recorded, and the
  same with empty logs and our agent in slot 0.\<close>

definition world_no_win1 :: world where
  "world_no_win1 = world_ab\<lparr>summary_iterator := (\<lambda>p. log_two_wins)\<rparr>"

definition world_no_win0 :: world where
  "world_no_win0 =
     world_ab\<lparr>summary_iterator := (\<lambda>p. []),
              load_json := (\<lambda>p. Inr (zoo_config\<lparr>victim_index := 1\<rparr>))\<rparr>"

text \<open>An event file in an \<open>rl/tb\<close> directory that is not below any \<open>baselines\<close> directory.\<close>

definition path_no_anchor :: string where
  "path_no_anchor = ''/data/run/rl/tb/events.out.tfevents.1''"

definition default_name :: string where
  "default_name = ''highest_win_policies_and_rates.json''"

text \<open>
  Every file \<open>os.walk\<close> would reach below a directory if nothing were pruned, in the order
  of the walk: the names of the directories descended from the start of the walk, the
  directory's path as \<open>os.walk\<close> builds it, and the file name.
\<close>

fun walk_files :: "string \<Rightarrow> string list \<Rightarrow> dir \<Rightarrow> (string list \<times> string \<times> string) list"
  and walk_files_dirs ::
    "string \<Rightarrow> string list \<Rightarrow> (string \<times> dir) list \<Rightarrow> (string list \<times> string \<times> string) list"
  where
  "walk_files root_dir rel (Dir fs ds) =
     map (\<lambda>name. (rel, root_dir, name)) fs @ walk_files_dirs root_dir rel ds"
| "walk_files_dirs root_dir rel [] = []"
| "walk_files_dirs root_dir rel ((name, d) # ds) =
     walk_files (join2 root_dir name) (rel @ [name]) d @ walk_files_dirs root_dir rel ds"

text \<open>A list of segments ends with the given segments.\<close>

definition ends_with :: "'a list \<Rightarrow> 'a list \<Rightarrow> bool" where
  "ends_with xs suf \<longleftrightarrow>
     length suf \<le> length xs \<and> drop (length xs - length suf) xs = suf"

text \<open>A file of the walk is a candidate: no directory descended on the way to it is named
  \<open>checkpoint\<close>, the segments of its directory end with \<open>rl\<close>, \<open>tb\<close>, and its name contains
  \<open>tfevents\<close>.\<close>

definition candidate :: "string list \<times> string \<times> string \<Rightarrow> bool" where
  "candidate f =
     (case f of (rel, root_dir, name) \<Rightarrow>
        ''checkpoint'' \<notin> set rel
        \<and> ends_with (path_split root_dir) [''rl'', ''tb'']
        \<and> contains name ''tfevents'')"

definition file_path :: "string list \<times> string \<times> string \<Rightarrow> string" where
  "file_path f = (case f of (rel, root_dir, name) \<Rightarrow> join2 root_dir name)"

text \<open>A log directory that is itself below a directory named \<open>checkpoint\<close>.\<close>

definition checkpoint_logdir :: string where
  "checkpoint_logdir = ''/data/checkpoint/x''"

definition checkpoint_tree :: dir where
  "checkpoint_tree = Dir [] [(''rl'', Dir [] [(''tb'', Dir [''events.out.tfevents.1''] [])])]"

text \<open>A run directory whose \<open>checkpoint\<close> subdirectory holds a correctly placed and named
  event file, next to a real one and to files that do not qualify.\<close>

definition pruned_tree :: dir where
  "pruned_tree =
     Dir []
       [(''checkpoint'', Dir [] [(''rl'', Dir [] [(''tb'', Dir [''events.out.tfevents.9''] [])])]),
        (''rl'', Dir [''events.out.tfevents.0'']
                   [(''tb'', Dir [''events.out.tfevents.1'', ''notes.txt''] [])])]"

text \<open>The example corpus with logs in which our agent, in slot 1, never won.\<close>

definition world_lost :: world where
  "world_lost = world_ab\<lparr>summary_iterator := (\<lambda>p. win1_log 0)\<rparr>"

text \<open>The invariant of the fold: every key with a best policy has a stored win rate, a key
  with a stored win rate and no best policy has the win rate 0.0 it was created with, and
  both dicts have one entry for each key.\<close>

definition best_inv :: "best \<Rightarrow> bool" where
  "best_inv st \<longleftrightarrow>
     (case st of (best_policy, best_winrate) \<Rightarrow>
        distinct (map fst best_policy) \<and> distinct (map fst best_winrate)
        \<and> fst ` set best_policy \<subseteq> fst ` set best_winrate
        \<and> (\<forall>k v. map_of best_winrate k = Some v \<and> map_of best_policy k = None \<longrightarrow> v = Num 0))"

text \<open>The invariant of the reading loop: after the summary values \<open>xs\<close>, the dict holds for
  each tracked tag with at least one value the values recorded for it, in order, and
  nothing else.\<close>

definition events_ok :: "(string \<times> real list) list \<Rightarrow> summary_value list \<Rightarrow> bool" where
  "events_ok events xs \<longleftrightarrow>
     (\<forall>t. map_of events t =
        (let v = map simple_value (filter (\<lambda>x. tag x = t) xs)
         in if t \<in> set tracked_tags \<and> v \<noteq> [] then Some v else None))"

section \<open>Properties of \<open>get_stats\<close>\<close>

lemma map_of_dd_append:
  "map_of (dd_append k x d) =
     (map_of d)(k \<mapsto> (case map_of d k of None \<Rightarrow> [x] | Some v \<Rightarrow> v @ [x]))"
  by (induction d) (auto simp: fun_eq_iff)

lemma map_of_dd_touch:
  "map_of (dd_touch k d) = (case map_of d k of None \<Rightarrow> (map_of d)(k \<mapsto> []) | Some v \<Rightarrow> map_of d)"
  by (induction d) (auto simp: fun_eq_iff split: option.splits)

lemma read_values_ok:
  "events_ok events pre \<Longrightarrow> events_ok (fst (read_values st xs (events, ls))) (pre @ xs)"
proof (induction xs arbitrary: events ls pre)
  case Nil then show ?case by simp
next
  case (Cons x xs)
  show ?case
  proof (cases "tag x \<in> set tracked_tags")
    case True
    have "events_ok (dd_append (tag x) (simple_value x) events) (pre @ [x])"
      using Cons.prems True unfolding events_ok_def
      by (auto simp: map_of_dd_append Let_def split: option.splits)
    from Cons.IH[OF this] True show ?thesis by simp
  next
    case False
    have "events_ok events (pre @ [x])"
      using Cons.prems False unfolding events_ok_def
      by (auto simp: Let_def)
    from Cons.IH[OF this] False show ?thesis by simp
  qed
qed

lemma read_events_ok:
  "events_ok (fst s) pre \<Longrightarrow> events_ok (fst (read_events es s)) (pre @ concat (map summary es))"
proof (induction es arbitrary: s pre)
  case Nil then show ?case by simp
next
  case (Cons e es)
  obtain events ls where s: "s = (events, ls)" by (cases s)
  have "events_ok (fst (read_values (step e) (summary e) s)) (pre @ summary e)"
    using read_values_ok[of events pre] Cons.prems s by simp
  from Cons.IH[OF this] show ?case by simp
qed

lemma read_events_recorded:
  "map_of (fst (read_events evs ([], 0))) t =
     (if t \<in> set tracked_tags \<and> recorded evs t \<noteq> [] then Some (recorded evs t) else None)"
proof -
  have "events_ok (fst ([], 0::int)) []" by (simp add: events_ok_def)
  from read_events_ok[OF this, of evs] show ?thesis
    by (simp add: events_ok_def recorded_def Let_def)
qed

lemma map_of_means:
  "map_of (map (\<lambda>(k, v). (k, f v)) d) t = map_option f (map_of d t)"
  by (induction d) auto

lemma slice_from_Nil: "slice_from i [] = []" by (simp add: slice_from_def)
lemma np_mean_Nil: "np_mean fm [] = NaN" by (simp add: np_mean_def)

lemma get_stats_lookup:
  "map_of (get_stats fm evs w) t =
     (if t \<in> set tracked_tags \<and> recorded evs t \<noteq> []
      then Some (np_mean fm (slice_from (- w) (recorded evs t)))
      else if t = ''game_win0'' then Some NaN else None)"
proof -
  obtain events ls where r: "read_events evs ([], 0) = (events, ls)" by (cases "read_events evs ([], 0)")
  have m: "map_of events t = (if t \<in> set tracked_tags \<and> recorded evs t \<noteq> [] then Some (recorded evs t) else None)" for t
    using read_events_recorded[of evs t] r by simp
  show ?thesis
    unfolding get_stats_def r
    by (simp add: map_of_means map_of_dd_touch m slice_from_Nil np_mean_Nil tracked_tags_def split: option.splits)
qed

lemma slice_from_neg_window:
  "0 < w \<Longrightarrow> slice_from (- w) v = drop (length v - min (length v) (nat w)) v"
  by (auto simp: slice_from_def max_def min_def intro!: arg_cong2[where f=drop])

lemma slice_from_zero: "slice_from (- 0) v = v" by (simp add: slice_from_def)
lemma slice_from_pos: "w < 0 \<Longrightarrow> slice_from (- w) v = drop (nat (- w)) v" by (simp add: slice_from_def)

lemma last_values_drop: "last_values n v = drop (length v - n) v"
  by (simp add: last_values_def rev_take)

lemma recorded_Nil: "recorded [] t = []"
  by (simp add: recorded_def)

lemma recorded_log_two_wins:
  "recorded log_two_wins ''game_win0'' = [0, 0, 1, 1]"
  "recorded log_two_wins ''game_win1'' = []"
  "recorded log_two_wins ''game_tie'' = []"
  by (simp_all add: recorded_def log_two_wins_def)

text \<open>
  C10: the mapping returned by \<open>get_stats\<close> always has the key \<open>game_win0\<close>, with a NaN mean
  when no value of that metric was recorded (the logging line reads \<open>events['game_win0']\<close> on
  the defaultdict before the means are computed), whereas \<open>game_win1\<close> and \<open>game_tie\<close> are
  keys exactly when at least one value was recorded for them.
\<close>

theorem get_stats_keys:
  "map_of (get_stats fm evs w) ''game_win0'' \<noteq> None
   \<and> (recorded evs ''game_win0'' = [] \<longrightarrow> map_of (get_stats fm evs w) ''game_win0'' = Some NaN)
   \<and> (map_of (get_stats fm evs w) ''game_win1'' \<noteq> None \<longleftrightarrow> recorded evs ''game_win1'' \<noteq> [])
   \<and> (map_of (get_stats fm evs w) ''game_tie'' \<noteq> None \<longleftrightarrow> recorded evs ''game_tie'' \<noteq> [])"
  by (simp add: get_stats_lookup tracked_tags_def)

theorem get_stats_keys_witness:
  "recorded [] ''game_win0'' = []
   \<and> map_of (get_stats arithmetic_mean [] 50) ''game_win0'' = Some NaN
   \<and> map_of (get_stats arithmetic_mean [] 50) ''game_win1'' = None
   \<and> map_of (get_stats arithmetic_mean log_two_wins 50) ''game_win0'' \<noteq> None
   \<and> map_of (get_stats arithmetic_mean log_two_wins 50) ''game_tie'' = None"
  using get_stats_keys [of arithmetic_mean "[]" 50]
    get_stats_keys [of arithmetic_mean log_two_wins 50]
  by (simp add: recorded_Nil recorded_log_two_wins)

text \<open>
  Which values a mean is taken of: for a tracked metric with at least one recorded value
  and a window \<open>W \<ge> 1\<close>, the last \<open>min N W\<close> recorded values in emission order; for a
  window \<open>W \<le> 0\<close>, the slice \<open>v[-W:]\<close> drops the first \<open>- W\<close> values instead.
\<close>

lemma get_stats_window:
  assumes "t \<in> set tracked_tags" and ne: "recorded evs t \<noteq> []" and W: "1 \<le> W"
  shows "map_of (get_stats fm evs W) t =
           Some (Num (fm (last_values (min (length (recorded evs t)) (nat W)) (recorded evs t))))"
proof -
  let ?v = "recorded evs t"
  let ?win = "drop (length ?v - min (length ?v) (nat W)) ?v"
  have "length ?v - min (length ?v) (nat W) < length ?v"
    using ne W by (cases ?v) (auto simp: min_def)
  then have win: "?win \<noteq> []" by simp
  have "map_of (get_stats fm evs W) t = Some (np_mean fm (slice_from (- W) ?v))"
    using assms ne by (simp add: get_stats_lookup)
  also have "slice_from (- W) ?v = ?win"
    using W by (simp add: slice_from_neg_window)
  also have "np_mean fm ?win = Num (fm ?win)"
    using win by (simp add: np_mean_def)
  finally show ?thesis by (simp add: last_values_drop)
qed

lemma get_stats_window_nonpositive:
  assumes "t \<in> set tracked_tags" and "recorded evs t \<noteq> []" and "W \<le> 0"
  shows "map_of (get_stats fm evs W) t = Some (np_mean fm (drop (nat (- W)) (recorded evs t)))"
  using assms by (simp add: get_stats_lookup slice_from_def)

section \<open>The example corpus evaluated\<close>

lemma model_path_a: "get_final_model_path path_a = Inr ''multi_train/a/baselines/1/final_model''"
  by (simp add: get_final_model_path_def strip_up_to_def path_a_def path_split_def path_join_def join2_def)

lemma model_path_b: "get_final_model_path path_b = Inr ''multi_train/b/baselines/1/final_model''"
  by (simp add: get_final_model_path_def strip_up_to_def path_b_def path_split_def path_join_def join2_def)

lemma str_int_simps: "str_int 0 = ''0''" "str_int 1 = ''1''"
  by (simp_all add: str_int_def str_nat.simps)

lemma sacred_config_a: "get_sacred_config world_ab path_a = Inr zoo_config"
  by (simp add: get_sacred_config_def strip_up_to_def path_a_def path_split_def path_join_def join2_def world_ab_def)

lemma sacred_config_b: "get_sacred_config world_ab path_b = Inr zoo_config"
  by (simp add: get_sacred_config_def strip_up_to_def path_b_def path_split_def path_join_def join2_def world_ab_def)

lemma get_stats_win1_log:
  "get_stats fm (win1_log x) 50 = [(''game_win0'', Num (fm [1 - x])), (''game_win1'', Num (fm [x]))]"
  by (simp add: get_stats_def win1_log_def tracked_tags_def slice_from_def np_mean_def)

lemma arithmetic_mean_single: "arithmetic_mean [x] = x"
  by (simp add: arithmetic_mean_def)

lemma float_mean_world_ab: "float_mean world_ab = arithmetic_mean"
  by (simp add: world_ab_def)

lemma paths_differ: "path_b \<noteq> path_a"
  by (simp add: path_a_def path_b_def)

lemma read_entry_a: "read_entry world_ab 50 path_a = Inr (key_ab, Num 0.625)"
  unfolding read_entry_def sacred_config_a
  by (simp add: world_ab_def get_stats_win1_log arithmetic_mean_single zoo_config_def
      opponent_path_def str_int_simps dict_get_def key_ab_def)

lemma read_entry_b: "read_entry world_ab 50 path_b = Inr (key_ab, Num 0.75)"
  unfolding read_entry_def sacred_config_b
  by (simp add: world_ab_def get_stats_win1_log arithmetic_mean_single zoo_config_def
      opponent_path_def str_int_simps dict_get_def key_ab_def paths_differ)

lemma event_files_ab:
  "event_files ''/data/multi_train'' (walk_tree world_ab ''/data/multi_train'') = [path_a, path_b]"
  by (simp add: world_ab_def run_dir_def join2_def path_split_def slice_from_def path_a_def path_b_def)

section \<open>Dictionaries and the update of the best record\<close>

lemma map_of_dict_set: "map_of (dict_set k v d) = (map_of d)(k \<mapsto> v)"
  by (induction d) (auto simp: fun_eq_iff)

lemma keys_dict_set: "fst ` set (dict_set k v d) = insert k (fst ` set d)"
  by (simp add: dom_map_of_conv_image_fst[symmetric] map_of_dict_set)

lemma distinct_dict_set: "distinct (map fst d) \<Longrightarrow> distinct (map fst (dict_set k v d))"
  by (induction d) (auto simp: keys_dict_set)

lemma dict_set_twice: "dict_set k v (dict_set k v' d) = dict_set k v d"
  by (induction d) auto

lemma fst_dd_get: "fst (dd_get k dflt d) = (case map_of d k of None \<Rightarrow> dflt | Some v \<Rightarrow> v)"
  by (simp add: dd_get_def split: option.splits)

lemma map_of_dd_get:
  "map_of (snd (dd_get k dflt d)) = (map_of d)(k \<mapsto> fst (dd_get k dflt d))"
  by (auto simp: dd_get_def fun_eq_iff map_add_def split: option.splits)

lemma keys_dd_get: "fst ` set (snd (dd_get k dflt d)) = insert k (fst ` set d)"
  by (simp add: dom_map_of_conv_image_fst[symmetric] map_of_dd_get)

lemma distinct_dd_get: "distinct (map fst d) \<Longrightarrow> distinct (map fst (snd (dd_get k dflt d)))"
  by (auto simp: dd_get_def map_of_eq_None_iff split: option.splits)

lemma dd_get_idem: "snd (dd_get k dflt (snd (dd_get k dflt d))) = snd (dd_get k dflt d)"
  by (auto simp: dd_get_def split: option.splits)

lemma dd_get_dict_set: "snd (dd_get k dflt (dict_set k v d)) = dict_set k v d"
  by (simp add: dd_get_def map_of_dict_set)

lemma dict_set_dd_get_twice:
  "dict_set k v (snd (dd_get k dflt (dict_set k v' d))) = dict_set k v d"
  by (simp add: dd_get_dict_set dict_set_twice)

lemma stored_winrate_eq:
  "stored_winrate bw k = (case map_of bw k of None \<Rightarrow> Num 0 | Some v \<Rightarrow> v)"
  by (simp add: stored_winrate_def fst_dd_get)

lemma update_best_cases:
  assumes "update_best k w p (bp, bw) = Inr st'"
  shows "(py_gt w (stored_winrate bw k) \<and>
            (\<exists>m. get_final_model_path p = Inr m \<and>
                 st' = (dict_set k m bp, dict_set k w (snd (dd_get k (Num 0) bw)))))
         \<or> (\<not> py_gt w (stored_winrate bw k) \<and> st' = (bp, snd (dd_get k (Num 0) bw)))"
  using assms
  by (auto simp: update_best_def stored_winrate_def split: prod.splits if_splits sum.splits)

lemma py_gt_trans: "py_gt a b \<Longrightarrow> py_gt b c \<Longrightarrow> py_gt a c"
  by (cases a; cases b; cases c) auto

lemma py_gt_irrefl: "\<not> py_gt a a"
  by (cases a) auto


lemma not_lower_refl: "not_lower a a" by (simp add: not_lower_def)
lemma not_lower_trans: "not_lower c b \<Longrightarrow> not_lower b a \<Longrightarrow> not_lower c a"
  by (auto simp: not_lower_def intro: py_gt_trans)

lemma stored_winrate_dd_get:
  "stored_winrate (snd (dd_get k (Num 0) bw)) k' = stored_winrate bw k'"
  by (simp add: stored_winrate_eq map_of_dd_get fst_dd_get split: option.splits)

lemma stored_winrate_dict_set:
  "stored_winrate (dict_set k w d) k' = (if k' = k then w else stored_winrate d k')"
  by (simp add: stored_winrate_eq map_of_dict_set)

lemma update_best_replaced:
  assumes "update_best k w p (bp, bw) = Inr (bp', bw')" and "py_gt w (stored_winrate bw k)"
  shows "map_of bw' k = Some w" and "\<exists>m. get_final_model_path p = Inr m \<and> map_of bp' k = Some m"
  using update_best_cases[OF assms(1)] assms(2) by (auto simp: map_of_dict_set)

lemma update_best_kept:
  assumes "update_best k w p (bp, bw) = Inr (bp', bw')" and "\<not> py_gt w (stored_winrate bw k)"
  shows "bp' = bp" and "stored_winrate bw' k' = stored_winrate bw k'"
  using update_best_cases[OF assms(1)] assms(2) by (auto simp: stored_winrate_dd_get)

lemma update_best_other:
  assumes "update_best k w p (bp, bw) = Inr (bp', bw')" and "k' \<noteq> k"
  shows "map_of bp' k' = map_of bp k'" and "map_of bw' k' = map_of bw k'"
  using update_best_cases[OF assms(1)] assms(2)
  by (auto simp: map_of_dict_set map_of_dd_get)

lemma update_best_not_lower:
  assumes "update_best k w p (bp, bw) = Inr (bp', bw')"
  shows "not_lower (stored_winrate bw' k') (stored_winrate bw k')"
  using update_best_cases[OF assms]
  by (auto simp: stored_winrate_dict_set stored_winrate_dd_get not_lower_def)

lemma fold_event_not_lower:
  assumes "fold_event wd ew st p = Inr st'"
  shows "not_lower (stored_winrate (snd st') k) (stored_winrate (snd st) k)"
proof -
  obtain k0 w0 where "update_best k0 w0 p st = Inr st'"
    using assms by (auto simp: fold_event_def split: sum.splits prod.splits)
  then show ?thesis using update_best_not_lower[of k0 w0 p "fst st" "snd st" "fst st'" "snd st'" k] by simp
qed

lemma fold_paths_not_lower:
  "fold_paths wd ew st ps = Inr st' \<Longrightarrow>
     not_lower (stored_winrate (snd st') k) (stored_winrate (snd st) k)"
proof (induction ps arbitrary: st)
  case Nil then show ?case by (simp add: not_lower_refl)
next
  case (Cons p ps)
  then obtain s where s: "fold_event wd ew st p = Inr s" and r: "fold_paths wd ew s ps = Inr st'"
    by (auto split: sum.splits)
  from not_lower_trans[OF Cons.IH[OF r] fold_event_not_lower[OF s]] show ?case .
qed

lemma fold_logdirs_not_lower:
  "fold_logdirs wd ew st ls = Inr st' \<Longrightarrow>
     not_lower (stored_winrate (snd st') k) (stored_winrate (snd st) k)"
proof (induction ls arbitrary: st)
  case Nil then show ?case by (simp add: not_lower_refl)
next
  case (Cons l ls)
  then obtain s where s: "fold_paths wd ew st (event_files l (walk_tree wd l)) = Inr s"
    and r: "fold_logdirs wd ew s ls = Inr st'"
    by (auto split: sum.splits)
  from not_lower_trans[OF Cons.IH[OF r] fold_paths_not_lower[OF s]] show ?case .
qed

section \<open>The best-of fold\<close>

lemma fst_dd_get_dict_set: "fst (dd_get k dflt (dict_set k v d)) = v"
  by (simp add: fst_dd_get map_of_dict_set)

lemma fst_dd_get_idem: "fst (dd_get k dflt (snd (dd_get k dflt d))) = fst (dd_get k dflt d)"
  by (simp add: fst_dd_get map_of_dd_get)

lemma update_best_twice:
  assumes "get_final_model_path pa = Inr ma" and "get_final_model_path pb = Inr mb" and "a < b"
  shows "(case update_best k (Num a) pa st of Inl e \<Rightarrow> Inl e | Inr s \<Rightarrow> update_best k (Num b) pb s)
       = (case update_best k (Num b) pb st of Inl e \<Rightarrow> Inl e | Inr s \<Rightarrow> update_best k (Num a) pa s)"
proof -
  obtain bp bw where st: "st = (bp, bw)" by (cases st)
  show ?thesis
  proof (cases "fst (dd_get k (Num 0) bw)")
    case NaN
    then show ?thesis using assms
      by (simp add: st update_best_def split_beta fst_dd_get_idem dd_get_idem)
  next
    case (Num s)
    then show ?thesis using assms
      by (auto simp: st update_best_def split_beta fst_dd_get_idem dd_get_idem
          fst_dd_get_dict_set dd_get_dict_set dict_set_twice)
  qed
qed

lemma update_best_fresh:
  assumes "get_final_model_path p = Inr m" and "0 < x"
  shows "update_best k (Num x) p ([], []) = Inr ([(k, m)], [(k, Num x)])"
  using assms by (simp add: update_best_def dd_get_def)

lemma fold_paths_two:
  "fold_paths wd ew st [p, q] =
     (case fold_event wd ew st p of Inl e \<Rightarrow> Inl e | Inr s \<Rightarrow> fold_event wd ew s q)"
  by (simp split: sum.splits)

lemma best_of_two_aux:
  assumes ra: "read_entry wd ew pa = Inr (k, Num a)" and rb: "read_entry wd ew pb = Inr (k, Num b)"
    and ma: "get_final_model_path pa = Inr ma" and mb: "get_final_model_path pb = Inr mb"
    and ab: "a < b" and b: "0 < b"
  shows "fold_paths wd ew st [pa, pb] = fold_paths wd ew st [pb, pa]"
    and "fold_paths wd ew ([], []) [pb, pa] = Inr ([(k, mb)], [(k, Num b)])"
proof -
  show "fold_paths wd ew st [pa, pb] = fold_paths wd ew st [pb, pa]"
    using update_best_twice[OF ma mb ab, of k st]
    by (simp only: fold_paths_two fold_event_def ra rb sum.case prod.case)
  have "fold_paths wd ew ([], []) [pb, pa]
          = (case update_best k (Num b) pb ([], []) of Inl e \<Rightarrow> Inl e
             | Inr s \<Rightarrow> update_best k (Num a) pa s)"
    by (simp only: fold_paths_two fold_event_def ra rb sum.case prod.case)
  also have "\<dots> = update_best k (Num a) pa ([(k, mb)], [(k, Num b)])"
    by (simp only: update_best_fresh[OF mb b] sum.case)
  also have "\<dots> = Inr ([(k, mb)], [(k, Num b)])"
    using ab by (simp add: update_best_def dd_get_def)
  finally show "fold_paths wd ew ([], []) [pb, pa] = Inr ([(k, mb)], [(k, Num b)])" .
qed

text \<open>
  C6: one update of the fold, whenever it returns, has replaced the record of key \<open>k\<close> by the
  new win rate and the model path of its log if the new win rate is strictly greater than
  the stored value (0.0 for a new key), and has kept the stored policy and win rate if it
  is not (so an exact tie keeps the earlier record); the stored win rate of any key is never
  lower afterwards, after one update and after the whole fold over the log directories.
\<close>

theorem best_record_update:
  "(update_best k w p (bp, bw) = Inr (bp', bw') \<longrightarrow>
      (py_gt w (stored_winrate bw k) \<longrightarrow>
         map_of bw' k = Some w \<and>
         (\<exists>m. get_final_model_path p = Inr m \<and> map_of bp' k = Some m))
      \<and> (\<not> py_gt w (stored_winrate bw k) \<longrightarrow>
           bp' = bp \<and> stored_winrate bw' k = stored_winrate bw k)
      \<and> not_lower (stored_winrate bw' k') (stored_winrate bw k'))
   \<and> (fold_logdirs wd ew st ls = Inr st' \<longrightarrow>
        not_lower (stored_winrate (snd st') k') (stored_winrate (snd st) k'))"
  using update_best_replaced[of k w p bp bw bp' bw'] update_best_kept[of k w p bp bw bp' bw']
    update_best_not_lower[of k w p bp bw bp' bw' k'] fold_logdirs_not_lower[of wd ew st ls st' k']
  by blast

lemma fold_logdirs_world_ab:
  "fold_logdirs world_ab 50 ([], []) [''/data/multi_train'']
     = Inr ([(key_ab, ''multi_train/b/baselines/1/final_model'')], [(key_ab, Num 0.75)])"
  by (simp add: event_files_ab fold_event_def read_entry_a read_entry_b update_best_def
      dd_get_def model_path_a model_path_b)

theorem best_record_update_witness:
  "update_best key_ab (Num 0.75) path_b ([(key_ab, ''m'')], [(key_ab, Num 0.625)])
     = Inr ([(key_ab, ''multi_train/b/baselines/1/final_model'')], [(key_ab, Num 0.75)])
   \<and> py_gt (Num 0.75) (stored_winrate [(key_ab, Num 0.625)] key_ab)
   \<and> update_best key_ab (Num 0.625) path_a ([(key_ab, ''m'')], [(key_ab, Num 0.625)])
     = Inr ([(key_ab, ''m'')], [(key_ab, Num 0.625)])
   \<and> \<not> py_gt (Num 0.625) (stored_winrate [(key_ab, Num 0.625)] key_ab)
   \<and> fold_logdirs world_ab 50 ([], []) [''/data/multi_train'']
     = Inr ([(key_ab, ''multi_train/b/baselines/1/final_model'')], [(key_ab, Num 0.75)])
   \<and> not_lower (stored_winrate [(key_ab, Num 0.75)] key_ab) (stored_winrate [] key_ab)"
  using best_record_update[of key_ab "Num 0.75" path_b "[(key_ab, ''m'')]" "[(key_ab, Num 0.625)]"
      "[(key_ab, ''multi_train/b/baselines/1/final_model'')]" "[(key_ab, Num 0.75)]" key_ab
      world_ab 50 "([], [])" "[''/data/multi_train'']"
      "([(key_ab, ''multi_train/b/baselines/1/final_model'')], [(key_ab, Num 0.75)])"]
  by (simp add: fold_logdirs_world_ab update_best_def dd_get_def model_path_b stored_winrate_def
      not_lower_def del: fold_logdirs.simps)

section \<open>Configuration lookup and opponent identity\<close>

lemma index_of_None: "index_of xs x = None \<longleftrightarrow> x \<notin> set xs"
  by (induction xs) auto

lemma split_on_nonempty: "split_on c s \<noteq> []"
  by (induction s) (auto split: list.splits)

lemma strip_up_to_absent:
  assumes "dirname \<notin> set (path_split path)" and "dirname \<noteq> ''/''"
  shows "strip_up_to path dirname = Inl (ValueError dirname)"
proof -
  let ?c = "path_split path"
  let ?c' = "if hd ?c = [] then ''/'' # tl ?c else ?c"
  have "?c \<noteq> []" by (simp add: path_split_def split_on_nonempty)
  then have "set (tl ?c) \<subseteq> set ?c" by (cases ?c) auto
  with assms have "dirname \<notin> set ?c'" by auto
  then have "index_of (rev ?c') dirname = None" by (simp only: index_of_None set_rev not_False_eq_True)
  then show ?thesis by (simp add: strip_up_to_def Let_def)
qed

lemma fold_paths_abort:
  assumes "p \<in> set ps" and "\<And>s. \<exists>e. fold_event w ew s p = Inl e"
  shows "\<exists>e. fold_paths w ew st ps = Inl e"
  using assms(1)
proof (induction ps arbitrary: st)
  case Nil then show ?case by simp
next
  case (Cons q ps)
  show ?case
  proof (cases "fold_event w ew st q")
    case (Inl e) then show ?thesis by simp
  next
    case (Inr s)
    show ?thesis
    proof (cases "q = p")
      case True
      with assms(2)[of st] Inr show ?thesis by simp
    next
      case False
      with Cons.prems have "p \<in> set ps" by simp
      from Cons.IH[OF this, of s] Inr show ?thesis by simp
    qed
  qed
qed

lemma fold_logdirs_abort:
  assumes "d \<in> set ls" and "p \<in> set (event_files d (walk_tree w d))"
    and "\<And>s. \<exists>e. fold_event w ew s p = Inl e"
  shows "\<exists>e. fold_logdirs w ew st ls = Inl e"
  using assms(1)
proof (induction ls arbitrary: st)
  case Nil then show ?case by simp
next
  case (Cons l ls)
  show ?case
  proof (cases "fold_paths w ew st (event_files l (walk_tree w l))")
    case (Inl e) then show ?thesis by simp
  next
    case (Inr s)
    show ?thesis
    proof (cases "l = d")
      case True
      with fold_paths_abort[OF assms(2), of w ew st] assms(3) Inr show ?thesis by auto
    next
      case False
      with Cons.prems have "d \<in> set ls" by simp
      from Cons.IH[OF this, of s] Inr show ?thesis by simp
    qed
  qed
qed

lemma find_best_abort:
  assumes "d \<in> set ls" and "p \<in> set (event_files d (walk_tree w d))"
    and "\<And>s. \<exists>e. fold_event w ew s p = Inl e"
  shows "\<exists>e. find_best w ls ew = Inl e"
  using fold_logdirs_abort[OF assms, of "([], [])"] by (auto simp: find_best_def)

lemma main_abort:
  assumes "find_best w (logdir a) (episode_window a) = Inl e"
  shows "snd (main w a) \<noteq> None"
  using assms by (simp add: main_def Let_def split: sum.splits)

text \<open>
  C2, amended: for an event-log path whose segments do not contain \<open>baselines\<close>, the
  configuration lookup fails with the \<open>ValueError\<close> that \<open>_strip_up_to\<close> raises, which is not
  of the \<open>LookupError\<close> class; nothing catches it, so the loop body fails with it, and a run
  that discovers such a path ends with an exception in \<open>find_best\<close> and in \<open>main\<close>.
\<close>

theorem missing_anchor_aborts:
  assumes "''baselines'' \<notin> set (path_split event_path)"
  shows "get_sacred_config w event_path = Inl (ValueError ''baselines'')
         \<and> \<not> is_LookupError (ValueError ''baselines'')
         \<and> fold_event w ew st event_path = Inl (ValueError ''baselines'')
         \<and> (d \<in> set (logdir a) \<and> event_path \<in> set (event_files d (walk_tree w d)) \<longrightarrow>
              (\<exists>e. find_best w (logdir a) (episode_window a) = Inl e) \<and> snd (main w a) \<noteq> None)"
proof -
  have s: "strip_up_to event_path ''baselines'' = Inl (ValueError ''baselines'')"
    using strip_up_to_absent[OF assms] by simp
  then have c: "get_sacred_config w event_path = Inl (ValueError ''baselines'')"
    by (simp add: get_sacred_config_def)
  then have f: "fold_event w ew' s event_path = Inl (ValueError ''baselines'')" for s ew'
    by (simp add: fold_event_def read_entry_def)
  have "(\<exists>e. find_best w (logdir a) (episode_window a) = Inl e) \<and> snd (main w a) \<noteq> None"
    if "d \<in> set (logdir a)" and "event_path \<in> set (event_files d (walk_tree w d))"
  proof -
    from find_best_abort[OF that, of "episode_window a"] f
    obtain e where "find_best w (logdir a) (episode_window a) = Inl e" by blast
    with main_abort[OF this] show ?thesis by blast
  qed
  with c f show ?thesis by simp
qed

lemma path_no_anchor_split:
  "path_split path_no_anchor = ['''', ''data'', ''run'', ''rl'', ''tb'', ''events.out.tfevents.1'']"
  by (simp add: path_no_anchor_def path_split_def)

theorem missing_anchor_aborts_witness:
  "''baselines'' \<notin> set (path_split path_no_anchor)
   \<and> get_sacred_config world_ab path_no_anchor = Inl (ValueError ''baselines'')
   \<and> fold_event world_ab 50 ([], []) path_no_anchor = Inl (ValueError ''baselines'')"
proof -
  have h: "''baselines'' \<notin> set (path_split path_no_anchor)"
    by (simp add: path_no_anchor_split)
  from missing_anchor_aborts[OF h, of world_ab 50 "([], [])"] h show ?thesis by simp
qed

text \<open>C2 as stated fails on the class of the exception.\<close>

theorem missing_anchor_counterexample:
  "get_sacred_config world_ab path_no_anchor = Inl (ValueError ''baselines'')
   \<and> \<not> is_LookupError (ValueError ''baselines'')"
  by (simp add: get_sacred_config_def strip_up_to_def path_no_anchor_split)

text \<open>
  C5, amended: with an opponent type other than \<open>zoo\<close> and a load-policy object of type
  \<open>zoo\<close> and path \<open>P\<close>, the opponent identity is \<open>P\<close> whatever the victim path; with the
  opponent type \<open>zoo\<close> it is the victim path whatever load-policy object is present or
  absent; with another opponent type and a load-policy object of another type it is the
  victim path; with another opponent type and no load-policy object the lookup raises
  \<open>KeyError\<close>. The identity is the third component of the aggregation key.
\<close>

theorem opponent_identity:
  "(victim_type c \<noteq> ''zoo'' \<and> load_policy c = Some lp \<and> policy_type lp = ''zoo'' \<longrightarrow>
      opponent_path c = Inr (policy_path lp))
   \<and> (victim_type c = ''zoo'' \<longrightarrow> opponent_path c = Inr (victim_path c))
   \<and> (victim_type c \<noteq> ''zoo'' \<and> load_policy c = Some lp \<and> policy_type lp \<noteq> ''zoo'' \<longrightarrow>
        opponent_path c = Inr (victim_path c))
   \<and> (victim_type c \<noteq> ''zoo'' \<and> load_policy c = None \<longrightarrow>
        opponent_path c = Inl (KeyError ''load_policy''))
   \<and> (get_sacred_config w p = Inr c \<and> read_entry w ew p = Inr (k, x) \<longrightarrow>
        opponent_path c = Inr (snd (snd k)))"
  by (auto simp: opponent_path_def read_entry_def Let_def split: sum.splits)

theorem opponent_identity_witness:
  "opponent_path finetune_config = Inr ''1''
   \<and> opponent_path (zoo_config\<lparr>load_policy := Some \<lparr>policy_type = ''zoo'', policy_path = ''1''\<rparr>\<rparr>)
       = Inr ''zoo/3''
   \<and> opponent_path scratch_config = Inr ''adv/7''
   \<and> opponent_path bare_config = Inl (KeyError ''load_policy'')
   \<and> get_sacred_config world_ab path_a = Inr zoo_config
   \<and> read_entry world_ab 50 path_a = Inr (key_ab, Num 0.625)
   \<and> opponent_path zoo_config = Inr ''zoo/3''"
  using opponent_identity[of finetune_config "\<lparr>policy_type = ''zoo'', policy_path = ''1''\<rparr>"]
    opponent_identity[of "zoo_config\<lparr>load_policy := Some \<lparr>policy_type = ''zoo'', policy_path = ''1''\<rparr>\<rparr>"]
    opponent_identity[of scratch_config "\<lparr>policy_type = ''ppo2'', policy_path = ''adv/2''\<rparr>"]
    opponent_identity[of bare_config]
    opponent_identity[of zoo_config _ world_ab path_a 50 key_ab "Num 0.625"]
  by (simp add: finetune_config_def zoo_config_def scratch_config_def bare_config_def
      sacred_config_a read_entry_a key_ab_def)

text \<open>C5 as stated fails in its "otherwise" case when the load-policy object is absent.\<close>

theorem opponent_identity_counterexample:
  "victim_type bare_config \<noteq> ''zoo'' \<and> load_policy bare_config = None
   \<and> opponent_path bare_config = Inl (KeyError ''load_policy'')
   \<and> opponent_path bare_config \<noteq> Inr (victim_path bare_config)"
  by (simp add: bare_config_def opponent_path_def)

section \<open>A metric that was never recorded\<close>

lemma get_stats_log_two_wins:
  "get_stats fm log_two_wins 50 = [(''game_win0'', Num (fm [0, 0, 1, 1]))]"
  by (simp add: get_stats_def log_two_wins_def tracked_tags_def slice_from_def np_mean_def)

lemma get_stats_Nil: "get_stats fm [] 50 = [(''game_win0'', NaN)]"
  by (simp add: get_stats_def slice_from_def np_mean_def)

lemma sacred_config_no_win1: "get_sacred_config world_no_win1 path_a = Inr zoo_config"
  using sacred_config_a
  by (simp add: get_sacred_config_def world_no_win1_def split: sum.splits)

lemma event_files_no_win1:
  "event_files ''/data/multi_train'' (walk_tree world_no_win1 ''/data/multi_train'') = [path_a, path_b]"
  using event_files_ab by (simp add: world_no_win1_def)

lemma event_files_no_win0:
  "event_files ''/data/multi_train'' (walk_tree world_no_win0 ''/data/multi_train'') = [path_a, path_b]"
  using event_files_ab by (simp add: world_no_win0_def)

lemma strip_baselines_a: "strip_up_to path_a ''baselines'' = Inr ''/data/multi_train/a''"
  by (simp add: strip_up_to_def path_a_def path_split_def path_join_def join2_def)

lemma strip_baselines_b: "strip_up_to path_b ''baselines'' = Inr ''/data/multi_train/b''"
  by (simp add: strip_up_to_def path_b_def path_split_def path_join_def join2_def)

lemma read_entry_no_win1:
  "read_entry world_no_win1 50 path_a = Inl (KeyError ''game_win1'')"
  unfolding read_entry_def sacred_config_no_win1
  by (simp add: world_no_win1_def get_stats_log_two_wins zoo_config_def opponent_path_def
      str_int_simps dict_get_def)

lemma read_entry_no_win0:
  "read_entry world_no_win0 50 path_a = Inr ((''Env1'', 1, ''zoo/3''), NaN)"
  "read_entry world_no_win0 50 path_b = Inr ((''Env1'', 1, ''zoo/3''), NaN)"
  by (simp_all add: read_entry_def get_sacred_config_def strip_baselines_a strip_baselines_b
      world_no_win0_def world_ab_def get_stats_Nil zoo_config_def opponent_path_def
      str_int_simps dict_get_def)

text \<open>
  C3: a log in which a tracked metric has no recorded value is meant to go through the fold
  without an exception. That holds for \<open>game_win0\<close> (second half: empty logs, our agent in
  slot 0, the run completes and selects no policy). It fails for \<open>game_win1\<close> (first half:
  \<open>get_stats\<close> returns no entry for the metric, and the lookup of our slot's win rate in
  \<open>find_best\<close> raises \<open>KeyError\<close>).
\<close>

theorem missing_win1_raises:
  "recorded (summary_iterator world_no_win1 path_a) ''game_win1'' = []
   \<and> map_of (get_stats (float_mean world_no_win1) (summary_iterator world_no_win1 path_a) 50)
         ''game_win1'' = None
   \<and> find_best world_no_win1 [''/data/multi_train''] 50 = Inl (KeyError ''game_win1'')
   \<and> recorded (summary_iterator world_no_win0 path_a) ''game_win0'' = []
   \<and> find_best world_no_win0 [''/data/multi_train''] 50
       = Inr \<lparr>policies = [], winrates = [(''Env1'', [(1, [(''zoo/3'', Num 0)])])]\<rparr>"
proof -
  have 1: "recorded (summary_iterator world_no_win1 path_a) ''game_win1'' = []"
    by (simp add: world_no_win1_def recorded_log_two_wins)
  have 2: "map_of (get_stats (float_mean world_no_win1) (summary_iterator world_no_win1 path_a) 50)
         ''game_win1'' = None"
    by (simp add: world_no_win1_def get_stats_log_two_wins)
  have 3: "find_best world_no_win1 [''/data/multi_train''] 50 = Inl (KeyError ''game_win1'')"
    by (simp add: find_best_def event_files_no_win1 fold_event_def read_entry_no_win1)
  have 4: "recorded (summary_iterator world_no_win0 path_a) ''game_win0'' = []"
    by (simp add: world_no_win0_def recorded_Nil)
  have 5: "find_best world_no_win0 [''/data/multi_train''] 50
       = Inr \<lparr>policies = [], winrates = [(''Env1'', [(1, [(''zoo/3'', Num 0)])])]\<rparr>"
    by (simp add: find_best_def event_files_no_win0 fold_event_def read_entry_no_win0
        update_best_def dd_get_def unstack_def unstack_step_def)
  from 1 2 3 4 5 show ?thesis by blast
qed

text \<open>
  C4: the claim's case \<open>N = 0\<close>, a NaN-like result that never wins the comparison, is what
  the code does for \<open>game_win0\<close> only. For a log without any value of \<open>game_win1\<close> or
  \<open>game_tie\<close>, \<open>get_stats\<close> returns no result for the metric, NaN or otherwise, and the
  read of our slot's win rate raises \<open>KeyError\<close> before any comparison.
\<close>

theorem unrecorded_metric_has_no_mean:
  "recorded log_two_wins ''game_win1'' = []
   \<and> map_of (get_stats arithmetic_mean log_two_wins 50) ''game_win1'' = None
   \<and> dict_get (get_stats arithmetic_mean log_two_wins 50) ''game_win1''
       = Inl (KeyError ''game_win1'')
   \<and> recorded log_two_wins ''game_tie'' = []
   \<and> map_of (get_stats arithmetic_mean log_two_wins 50) ''game_tie'' = None
   \<and> read_entry world_no_win1 50 path_a = Inl (KeyError ''game_win1'')
   \<and> map_of (get_stats arithmetic_mean [] 50) ''game_win0'' = Some NaN
   \<and> \<not> py_gt NaN (Num 0)"
  by (simp add: recorded_log_two_wins get_stats_log_two_wins get_stats_Nil dict_get_def
      read_entry_no_win1)

section \<open>Properties of \<open>main\<close>\<close>

lemma join2_plain:
  "d \<noteq> [] \<Longrightarrow> last d \<noteq> CHR ''/'' \<Longrightarrow> join2 d default_name = d @ ''/'' @ default_name"
  by (simp add: join2_def default_name_def)

lemma resolve_single:
  "logdir a = [d] \<Longrightarrow> output_path a = None \<Longrightarrow>
     resolve_output_path a = Inr (join2 d default_name)"
  by (simp add: resolve_output_path_def default_name_def)

lemma resolve_multiple:
  "1 < length (logdir a) \<Longrightarrow> output_path a = None \<Longrightarrow>
     resolve_output_path a =
       Inl (ValueError ''Must specify --output_path when using multiple log directories.'')"
  by (simp add: resolve_output_path_def)

lemma main_actions:
  assumes "resolve_output_path a = Inr out"
  shows "fst (main w a) =
           map Warning (filter (\<lambda>d. ''multi_train'' \<notin> set (path_split d)) (logdir a)) @
           (if writable w out
            then Open_w out # Find_best (logdir a) (episode_window a) #
                 (case find_best w (logdir a) (episode_window a) of
                    Inl e \<Rightarrow> [] | Inr r \<Rightarrow> [Json_dump out r])
            else [])"
    and "snd (main w a) =
           (if writable w out
            then (case find_best w (logdir a) (episode_window a) of
                    Inl e \<Rightarrow> Some e | Inr r \<Rightarrow> None)
            else Some (OSError out))"
  by (simp_all add: main_def assms Let_def split: sum.splits)

lemma main_no_output_path:
  assumes "resolve_output_path a = Inl e"
  shows "main w a = ([], Some e)"
  by (simp add: main_def assms)

text \<open>
  C9: with exactly one log directory \<open>d\<close> and no \<open>--output_path\<close>, the output path is
  \<open>os.path.join(d, 'highest_win_policies_and_rates.json')\<close> (that is \<open>d\<close>, a separator and
  the file name, for a \<open>d\<close> without trailing separator): it is the only path \<open>main\<close> opens or
  writes, it is opened whenever it can be, and the result of \<open>find_best\<close> is serialised into
  it. With more than one log directory and no \<open>--output_path\<close>, \<open>main\<close> raises before it has
  done anything: no file opened, \<open>find_best\<close> not called.
\<close>

theorem default_output_path:
  "(logdir a = [d] \<and> output_path a = None \<longrightarrow>
      resolve_output_path a = Inr (join2 d default_name)
      \<and> (d \<noteq> [] \<and> last d \<noteq> CHR ''/'' \<longrightarrow> join2 d default_name = d @ ''/'' @ default_name)
      \<and> (\<forall>p. Open_w p \<in> set (fst (main w a)) \<longrightarrow> p = join2 d default_name)
      \<and> (\<forall>p r. Json_dump p r \<in> set (fst (main w a)) \<longrightarrow> p = join2 d default_name)
      \<and> (writable w (join2 d default_name) \<longrightarrow> Open_w (join2 d default_name) \<in> set (fst (main w a)))
      \<and> (writable w (join2 d default_name) \<and> find_best w [d] (episode_window a) = Inr r \<longrightarrow>
           Json_dump (join2 d default_name) r \<in> set (fst (main w a)) \<and> snd (main w a) = None))
   \<and> (1 < length (logdir a) \<and> output_path a = None \<longrightarrow>
        main w a = ([], Some (ValueError ''Must specify --output_path when using multiple log directories.'')))"
proof -
  have single: "resolve_output_path a = Inr (join2 d default_name)
      \<and> (d \<noteq> [] \<and> last d \<noteq> CHR ''/'' \<longrightarrow> join2 d default_name = d @ ''/'' @ default_name)
      \<and> (\<forall>p. Open_w p \<in> set (fst (main w a)) \<longrightarrow> p = join2 d default_name)
      \<and> (\<forall>p r. Json_dump p r \<in> set (fst (main w a)) \<longrightarrow> p = join2 d default_name)
      \<and> (writable w (join2 d default_name) \<longrightarrow> Open_w (join2 d default_name) \<in> set (fst (main w a)))
      \<and> (writable w (join2 d default_name) \<and> find_best w [d] (episode_window a) = Inr r \<longrightarrow>
           Json_dump (join2 d default_name) r \<in> set (fst (main w a)) \<and> snd (main w a) = None)"
    if l: "logdir a = [d]" and o: "output_path a = None"
  proof -
    define out where "out = join2 d default_name"
    have res: "resolve_output_path a = Inr out"
      unfolding out_def by (rule resolve_single[OF l o])
    note m = main_actions[OF res, of w]
    have "\<forall>p. Open_w p \<in> set (fst (main w a)) \<longrightarrow> p = out"
      by (auto simp: m split: sum.splits if_splits)
    moreover have "\<forall>p r. Json_dump p r \<in> set (fst (main w a)) \<longrightarrow> p = out"
      by (auto simp: m split: sum.splits if_splits)
    moreover have "writable w out \<longrightarrow> Open_w out \<in> set (fst (main w a))"
      by (simp add: m)
    moreover have "writable w out \<and> find_best w [d] (episode_window a) = Inr r \<longrightarrow>
           Json_dump out r \<in> set (fst (main w a)) \<and> snd (main w a) = None"
      by (simp add: m l)
    ultimately show ?thesis using res join2_plain[of d] unfolding out_def by blast
  qed
  have multiple: "main w a = ([], Some (ValueError ''Must specify --output_path when using multiple log directories.''))"
    if "1 < length (logdir a)" and "output_path a = None"
    by (rule main_no_output_path[OF resolve_multiple[OF that]])
  from single multiple show ?thesis by blast
qed

lemma find_best_world_ab:
  "find_best world_ab [''/data/multi_train''] 50 =
     Inr \<lparr>policies = [(''Env1'', [(0, [(''zoo/3'', ''multi_train/b/baselines/1/final_model'')])])],
          winrates = [(''Env1'', [(0, [(''zoo/3'', Num 0.75)])])]\<rparr>"
  by (simp add: find_best_def fold_logdirs_world_ab unstack_def unstack_step_def key_ab_def
      del: fold_logdirs.simps)

lemma join2_example:
  "join2 ''/data/multi_train'' default_name = ''/data/multi_train/highest_win_policies_and_rates.json''"
  by (simp add: join2_def default_name_def)

theorem default_output_path_witness:
  "main world_ab \<lparr>logdir = [''/data/multi_train''], episode_window = 50, output_path = None\<rparr>
     = ([Open_w ''/data/multi_train/highest_win_policies_and_rates.json'',
         Find_best [''/data/multi_train''] 50,
         Json_dump ''/data/multi_train/highest_win_policies_and_rates.json''
           \<lparr>policies = [(''Env1'', [(0, [(''zoo/3'', ''multi_train/b/baselines/1/final_model'')])])],
            winrates = [(''Env1'', [(0, [(''zoo/3'', Num 0.75)])])]\<rparr>], None)
   \<and> main world_ab \<lparr>logdir = [''/data/multi_train'', ''/data/other''], episode_window = 50,
        output_path = None\<rparr>
     = ([], Some (ValueError ''Must specify --output_path when using multiple log directories.''))"
proof -
  let ?a = "\<lparr>logdir = [''/data/multi_train''], episode_window = 50, output_path = None\<rparr>"
  let ?b = "\<lparr>logdir = [''/data/multi_train'', ''/data/other''], episode_window = 50,
        output_path = None\<rparr>"
  have w: "writable world_ab p" for p by (simp add: world_ab_def)
  have r: "resolve_output_path ?a = Inr (join2 ''/data/multi_train'' default_name)"
    using default_output_path[of ?a "''/data/multi_train''" world_ab] by simp
  have b: "main world_ab ?b
     = ([], Some (ValueError ''Must specify --output_path when using multiple log directories.''))"
    using default_output_path[of ?b _ world_ab] by simp
  have "main world_ab ?a = (fst (main world_ab ?a), snd (main world_ab ?a))" by simp
  also have "\<dots> = ([Open_w ''/data/multi_train/highest_win_policies_and_rates.json'',
         Find_best [''/data/multi_train''] 50,
         Json_dump ''/data/multi_train/highest_win_policies_and_rates.json''
           \<lparr>policies = [(''Env1'', [(0, [(''zoo/3'', ''multi_train/b/baselines/1/final_model'')])])],
            winrates = [(''Env1'', [(0, [(''zoo/3'', Num 0.75)])])]\<rparr>], None)"
    unfolding main_actions[OF r]
    by (simp add: w find_best_world_ab join2_example path_split_def)
  finally show ?thesis using b by simp
qed

section \<open>Properties of \<open>event_files\<close>\<close>

lemma last_two_ends_with: "slice_from (- 2) xs = [a, b] \<longleftrightarrow> ends_with xs [a, b]"
proof (cases "2 \<le> length xs")
  case True
  then have "nat (max (int (length xs) - 2) 0) = length xs - 2" by (auto simp: max_def)
  with True show ?thesis by (simp add: slice_from_def ends_with_def numeral_2_eq_2)
next
  case False
  then have "length (slice_from (- 2) xs) < 2" by (simp add: slice_from_def)
  then have "slice_from (- 2) xs \<noteq> [a, b]" by auto
  with False show ?thesis by (simp add: ends_with_def)
qed

lemma walk_files_rel:
  "f \<in> set (walk_files r rel t) \<Longrightarrow> set rel \<subseteq> set (fst f)"
  "f \<in> set (walk_files_dirs r rel ds) \<Longrightarrow> set rel \<subseteq> set (fst f)"
  by (induction r rel t and r rel ds arbitrary: f and f rule: walk_files_walk_files_dirs.induct)
    (auto, blast+)

lemma no_candidate_below_checkpoint:
  assumes "''checkpoint'' \<in> set rel"
  shows "filter candidate (walk_files r rel t) = []"
proof -
  have "\<not> candidate f" if "f \<in> set (walk_files r rel t)" for f
    using walk_files_rel(1)[OF that] assms by (auto simp: candidate_def split: prod.splits)
  then show ?thesis by (simp add: filter_empty_conv)
qed

lemma event_files_walk:
  "''checkpoint'' \<notin> set rel \<Longrightarrow>
     event_files r t = map file_path (filter candidate (walk_files r rel t))"
  "''checkpoint'' \<notin> set rel \<Longrightarrow>
     event_files_dirs r ds = map file_path (filter candidate (walk_files_dirs r rel ds))"
proof (induction r t and r ds arbitrary: rel and rel rule: event_files_event_files_dirs.induct)
  case (1 root_dir fs ds)
  have "map file_path (filter candidate (map (\<lambda>name. (rel, root_dir, name)) fs))
        = (if slice_from (- 2) (path_split root_dir) = [''rl'', ''tb'']
           then map (join2 root_dir) (filter (\<lambda>name. contains name ''tfevents'') fs) else [])"
    using "1.prems"
    by (induction fs) (auto simp: candidate_def file_path_def last_two_ends_with)
  with "1.IH"[OF "1.prems"] show ?case by simp
next
  case (2 root_dir)
  then show ?case by simp
next
  case (3 root_dir name d ds)
  show ?case
  proof (cases "name = ''checkpoint''")
    case True
    then have "filter candidate (walk_files (join2 root_dir name) (rel @ [name]) d) = []"
      by (intro no_candidate_below_checkpoint) simp
    with True "3.IH"(2)[OF "3.prems"] show ?thesis by simp
  next
    case False
    with "3.prems" have "''checkpoint'' \<notin> set (rel @ [name])" by simp
    from "3.IH"(1)[OF False this] "3.IH"(2)[OF "3.prems"] False show ?thesis by simp
  qed
qed

text \<open>
  C8, amended: \<open>event_files(path)\<close> yields exactly the files below \<open>path\<close> that are reached
  without descending into a subdirectory named \<open>checkpoint\<close> (at any depth below \<open>path\<close>),
  whose directory path, split into segments, ends with \<open>rl\<close>, \<open>tb\<close>, and whose name
  contains \<open>tfevents\<close>; each is yielded as \<open>os.path.join\<close> of its directory and name, in
  the order of the walk.
\<close>

theorem event_files_candidates:
  "event_files path t = map file_path (filter candidate (walk_files path [] t))
   \<and> (p \<in> set (event_files path t) \<longleftrightarrow>
        (\<exists>f \<in> set (walk_files path [] t). candidate f \<and> p = file_path f))"
proof -
  have "event_files path t = map file_path (filter candidate (walk_files path [] t))"
    by (rule event_files_walk(1)) simp
  then show ?thesis by auto
qed

theorem event_files_candidates_witness:
  "event_files ''/data/run'' pruned_tree = [''/data/run/rl/tb/events.out.tfevents.1'']
   \<and> walk_files ''/data/run'' [] pruned_tree =
       [([''checkpoint'', ''rl'', ''tb''], ''/data/run/checkpoint/rl/tb'', ''events.out.tfevents.9''),
        ([''rl''], ''/data/run/rl'', ''events.out.tfevents.0''),
        ([''rl'', ''tb''], ''/data/run/rl/tb'', ''events.out.tfevents.1''),
        ([''rl'', ''tb''], ''/data/run/rl/tb'', ''notes.txt'')]
   \<and> ''/data/run/checkpoint/rl/tb/events.out.tfevents.9'' \<notin> set (event_files ''/data/run'' pruned_tree)"
proof -
  have w: "walk_files ''/data/run'' [] pruned_tree =
       [([''checkpoint'', ''rl'', ''tb''], ''/data/run/checkpoint/rl/tb'', ''events.out.tfevents.9''),
        ([''rl''], ''/data/run/rl'', ''events.out.tfevents.0''),
        ([''rl'', ''tb''], ''/data/run/rl/tb'', ''events.out.tfevents.1''),
        ([''rl'', ''tb''], ''/data/run/rl/tb'', ''notes.txt'')]"
    by (simp add: pruned_tree_def join2_def)
  have "event_files ''/data/run'' pruned_tree = [''/data/run/rl/tb/events.out.tfevents.1'']"
    using event_files_candidates[of "''/data/run''" pruned_tree] unfolding w
    by (simp add: candidate_def file_path_def ends_with_def path_split_def join2_def)
  with w show ?thesis by simp
qed

text \<open>
  C8 as stated fails when the walk starts at or below a directory named \<open>checkpoint\<close>: only
  the subdirectories met during the walk are filtered.
\<close>

theorem event_files_checkpoint_root_counterexample:
  "event_files checkpoint_logdir checkpoint_tree
     = [''/data/checkpoint/x/rl/tb/events.out.tfevents.1'']
   \<and> ''checkpoint'' \<in> set (path_split ''/data/checkpoint/x/rl/tb'')"
  by (simp add: checkpoint_logdir_def checkpoint_tree_def join2_def path_split_def slice_from_def)

section \<open>The result document\<close>

lemma map_of_modify_default:
  "map_of (modify_default k dflt f d) =
     (map_of d)(k \<mapsto> f (case map_of d k of None \<Rightarrow> dflt | Some v \<Rightarrow> v))"
  by (induction d) (auto simp: fun_eq_iff)

lemma leaf_Nil: "leaf [] k = None"
  by (simp add: leaf_def split: prod.splits)

lemma leaf_unstack_step:
  "leaf (unstack_step res (k', v)) k = (if k = k' then Some v else leaf res k)"
  by (cases k; cases k')
    (auto simp: leaf_def unstack_step_def map_of_modify_default map_of_dict_set
      split: option.splits)

lemma leaf_foldl_unstack_step:
  "leaf (foldl unstack_step res xs) k =
     (case map_of (rev xs) k of Some v \<Rightarrow> Some v | None \<Rightarrow> leaf res k)"
proof (induction xs arbitrary: res)
  case Nil then show ?case by simp
next
  case (Cons x xs)
  obtain k' v where x: "x = (k', v)" by (cases x)
  show ?case
    by (simp add: Cons.IH x leaf_unstack_step map_add_def split: option.splits)
qed

lemma distinct_map_insort_key:
  "distinct (map f (insort_key f x xs)) \<longleftrightarrow> f x \<notin> f ` set xs \<and> distinct (map f xs)"
  by (induction xs) (auto simp: set_insort_key)

lemma distinct_map_sort_key: "distinct (map f (sort_key f xs)) \<longleftrightarrow> distinct (map f xs)"
  by (induction xs) (auto simp: sort_key_simps distinct_map_insort_key)

lemma leaf_unstack:
  assumes "distinct (map fst d)"
  shows "leaf (unstack d) k = map_of d k"
proof -
  have "distinct (map fst (rev (sort_key fst d)))"
    using assms by (simp add: rev_map[symmetric] distinct_map_sort_key)
  moreover have "set (rev (sort_key fst d)) = set d" by simp
  ultimately have "map_of (rev (sort_key fst d)) = map_of d"
    using assms map_of_inject_set by blast
  then show ?thesis
    by (simp add: unstack_def leaf_foldl_unstack_step leaf_Nil split: option.splits)
qed

lemma best_inv_empty: "best_inv ([], [])"
  by (simp add: best_inv_def)

lemma update_best_inv:
  assumes "update_best k w p st = Inr st'" and "best_inv st"
  shows "best_inv st'"
proof -
  obtain bp bw where st: "st = (bp, bw)" by (cases st)
  let ?bw = "snd (dd_get k (Num 0) bw)"
  have d: "distinct (map fst bp)" "distinct (map fst bw)"
    and sub: "fst ` set bp \<subseteq> fst ` set bw"
    and z: "\<And>k v. map_of bw k = Some v \<Longrightarrow> map_of bp k = None \<Longrightarrow> v = Num 0"
    using assms(2) by (auto simp: best_inv_def st)
  have z': "v = Num 0" if "map_of ?bw k' = Some v" "map_of bp k' = None" for k' v
    using that z[of k' v] by (auto simp: map_of_dd_get fst_dd_get split: if_splits option.splits)
  from update_best_cases[OF assms(1)[unfolded st]]
  consider m where "st' = (dict_set k m bp, dict_set k w ?bw)" | "st' = (bp, ?bw)" by blast
  then show ?thesis
  proof cases
    case 1
    then show ?thesis
      using d sub z'
      by (auto simp: best_inv_def distinct_dict_set distinct_dd_get keys_dict_set keys_dd_get
          map_of_dict_set split: if_splits)
  next
    case 2
    then show ?thesis
      using d sub z'
      by (auto simp: best_inv_def distinct_dd_get keys_dd_get)
  qed
qed

lemma fold_event_inv:
  "fold_event w ew st p = Inr st' \<Longrightarrow> best_inv st \<Longrightarrow> best_inv st'"
  by (auto simp: fold_event_def split: sum.splits prod.splits intro: update_best_inv)

lemma fold_paths_inv:
  "fold_paths w ew st ps = Inr st' \<Longrightarrow> best_inv st \<Longrightarrow> best_inv st'"
  by (induction ps arbitrary: st) (auto split: sum.splits intro: fold_event_inv)

lemma fold_logdirs_inv:
  "fold_logdirs w ew st ls = Inr st' \<Longrightarrow> best_inv st \<Longrightarrow> best_inv st'"
  by (induction ls arbitrary: st) (auto split: sum.splits intro: fold_paths_inv)

text \<open>
  C1, amended: in the result of \<open>find_best\<close>, every (environment, opponent slot, opponent
  path) triple with a leaf in \<open>policies\<close> has a leaf in \<open>winrates\<close>; a triple with a leaf in
  \<open>winrates\<close> and none in \<open>policies\<close> has the win rate 0.0 there.
\<close>

theorem policies_within_winrates:
  assumes "find_best w logdirs ew = Inr res"
  shows "(leaf (policies res) k \<noteq> None \<longrightarrow> leaf (winrates res) k \<noteq> None)
         \<and> (leaf (policies res) k = None \<and> leaf (winrates res) k \<noteq> None \<longrightarrow>
              leaf (winrates res) k = Some (Num 0))"
proof -
  from assms obtain bp bw where f: "fold_logdirs w ew ([], []) logdirs = Inr (bp, bw)"
    and res: "res = \<lparr>policies = unstack bp, winrates = unstack bw\<rparr>"
    by (auto simp: find_best_def split: sum.splits prod.splits)
  from fold_logdirs_inv[OF f best_inv_empty]
  have d: "distinct (map fst bp)" "distinct (map fst bw)"
    and sub: "fst ` set bp \<subseteq> fst ` set bw"
    and z: "\<And>k v. map_of bw k = Some v \<Longrightarrow> map_of bp k = None \<Longrightarrow> v = Num 0"
    by (auto simp: best_inv_def)
  have 1: "leaf (winrates res) k \<noteq> None" if "leaf (policies res) k \<noteq> None"
  proof -
    from that have "map_of bp k \<noteq> None" by (simp add: res leaf_unstack[OF d(1)])
    then have "k \<in> fst ` set bp" by (simp only: map_of_eq_None_iff not_not)
    with sub have "k \<in> fst ` set bw" by blast
    then have "map_of bw k \<noteq> None" by (simp only: map_of_eq_None_iff not_not not_False_eq_True)
    then show ?thesis by (simp add: res leaf_unstack[OF d(2)])
  qed
  have 2: "leaf (winrates res) k = Some (Num 0)"
    if "leaf (policies res) k = None" "leaf (winrates res) k \<noteq> None"
    using that z[of k] by (auto simp: res leaf_unstack[OF d(1)] leaf_unstack[OF d(2)])
  from 1 2 show ?thesis by blast
qed

lemma sacred_config_lost: "get_sacred_config world_lost p = get_sacred_config world_ab p"
  by (simp add: get_sacred_config_def world_lost_def split: sum.splits)

lemma read_entry_lost:
  "read_entry world_lost 50 path_a = Inr (key_ab, Num 0)"
  "read_entry world_lost 50 path_b = Inr (key_ab, Num 0)"
  unfolding read_entry_def sacred_config_lost sacred_config_a sacred_config_b
  by (simp_all add: world_lost_def float_mean_world_ab get_stats_win1_log arithmetic_mean_single
      zoo_config_def opponent_path_def
      str_int_simps dict_get_def key_ab_def)

lemma event_files_lost:
  "event_files ''/data/multi_train'' (walk_tree world_lost ''/data/multi_train'') = [path_a, path_b]"
  using event_files_ab by (simp add: world_lost_def)

text \<open>
  C1 as stated fails from \<open>winrates\<close> to \<open>policies\<close>: the comparison reads
  \<open>best_winrate[key]\<close> on the defaultdict and so stores 0.0 for the key of every log folded,
  also when no log of that key has a win rate above 0.0 and no policy is stored.
\<close>

theorem winrates_without_policy_counterexample:
  "find_best world_lost [''/data/multi_train''] 50
     = Inr \<lparr>policies = [], winrates = [(''Env1'', [(0, [(''zoo/3'', Num 0)])])]\<rparr>
   \<and> leaf [(''Env1'', [(0, [(''zoo/3'', Num 0)])])] key_ab = Some (Num 0)
   \<and> leaf ([] :: string nested) key_ab = None"
proof -
  have "find_best world_lost [''/data/multi_train''] 50
     = Inr \<lparr>policies = [], winrates = [(''Env1'', [(0, [(''zoo/3'', Num 0)])])]\<rparr>"
    by (simp add: find_best_def event_files_lost fold_event_def read_entry_lost
        update_best_def dd_get_def unstack_def unstack_step_def key_ab_def)
  then show ?thesis by (simp add: leaf_def key_ab_def)
qed

theorem policies_within_winrates_witness:
  "find_best world_ab [''/data/multi_train''] 50 =
     Inr \<lparr>policies = [(''Env1'', [(0, [(''zoo/3'', ''multi_train/b/baselines/1/final_model'')])])],
          winrates = [(''Env1'', [(0, [(''zoo/3'', Num 0.75)])])]\<rparr>
   \<and> leaf [(''Env1'', [(0, [(''zoo/3'', ''multi_train/b/baselines/1/final_model'')])])] key_ab \<noteq> None
   \<and> leaf [(''Env1'', [(0, [(''zoo/3'', Num 0.75)])])] key_ab \<noteq> None"
  using policies_within_winrates[OF find_best_world_ab, of key_ab] find_best_world_ab
  by (simp add: leaf_def key_ab_def)

section \<open>Discovery order\<close>

lemma fold_paths_append:
  "fold_paths w ew st (ps @ qs) =
     (case fold_paths w ew st ps of Inl e \<Rightarrow> Inl e | Inr s \<Rightarrow> fold_paths w ew s qs)"
  by (induction ps arbitrary: st) (auto split: sum.splits)

lemma fold_logdirs_discovered:
  "fold_logdirs w ew st ls = fold_paths w ew st (discovered w ls)"
proof (induction ls arbitrary: st)
  case Nil then show ?case by (simp add: discovered_def)
next
  case (Cons l ls)
  have "discovered w (l # ls) = event_files l (walk_tree w l) @ discovered w ls"
    by (simp add: discovered_def)
  then show ?case by (simp add: fold_paths_append Cons.IH split: sum.splits)
qed

lemma find_best_discovered:
  "find_best w ls ew =
     (case fold_paths w ew ([], []) (discovered w ls) of
        Inl e \<Rightarrow> Inl e
      | Inr (bp, bw) \<Rightarrow> Inr \<lparr>policies = unstack bp, winrates = unstack bw\<rparr>)"
  by (simp add: find_best_def fold_logdirs_discovered)

lemma find_best_swap:
  assumes "discovered w ms = pre @ [p, q] @ post" and "discovered w ms' = pre @ [q, p] @ post"
    and "\<And>st. fold_paths w ew st [p, q] = fold_paths w ew st [q, p]"
  shows "find_best w ms ew = find_best w ms' ew"
  by (simp only: find_best_discovered assms fold_paths_append)

lemma leaf_unstack_single:
  "leaf (unstack [(k, v)]) k' = (if k' = k then Some v else None)"
  by (simp add: leaf_unstack)

text \<open>
  C7: a run of \<open>find_best\<close> that discovers exactly two logs, in either order, with the same
  aggregation key and distinct win rates (both at least 0, as win rates are) whose model
  paths resolve: \<open>find_best\<close> returns, and the record of the key in its result holds the
  larger win rate and the model path of the log that produced it. And in any run,
  exchanging the two logs where they are discovered one after the other, among whatever
  other logs, does not change the result of \<open>find_best\<close>.
\<close>

theorem best_of_two_order_independent:
  assumes "discovered w logdirs = [pa, pb] \<or> discovered w logdirs = [pb, pa]"
    and "read_entry w ew pa = Inr (k, Num a)" and "read_entry w ew pb = Inr (k, Num b)"
    and "get_final_model_path pa = Inr ma" and "get_final_model_path pb = Inr mb"
    and "a \<noteq> b" and "0 \<le> a" and "0 \<le> b"
  shows "(\<exists>res. find_best w logdirs ew = Inr res
            \<and> leaf (winrates res) k = Some (Num (max a b))
            \<and> leaf (policies res) k = Some (if a < b then mb else ma))
         \<and> (discovered w ms = pre @ [pa, pb] @ post \<and> discovered w ms' = pre @ [pb, pa] @ post
              \<longrightarrow> find_best w ms ew = find_best w ms' ew)"
proof -
  have two: "fold_paths w ew st [pa, pb] = fold_paths w ew st [pb, pa]
      \<and> (\<exists>m x. fold_paths w ew ([], []) [pa, pb] = Inr ([(k, m)], [(k, Num x)])
                \<and> x = max a b \<and> m = (if a < b then mb else ma))" for st
  proof (cases "a < b")
    case True
    with assms have b: "0 < b" by simp
    from best_of_two_aux[OF assms(2,3,4,5) True b] True show ?thesis
      by (simp add: max_def)
  next
    case False
    with assms have ba: "b < a" and a: "0 < a" by simp_all
    from best_of_two_aux[OF assms(3,2,5,4) ba a] False ba show ?thesis
      by (simp add: max_def)
  qed
  then obtain m x where f: "fold_paths w ew ([], []) [pa, pb] = Inr ([(k, m)], [(k, Num x)])"
    and x: "x = max a b" and m: "m = (if a < b then mb else ma)"
    by blast
  from two have sw: "fold_paths w ew st [pa, pb] = fold_paths w ew st [pb, pa]" for st
    by blast
  have "fold_paths w ew ([], []) (discovered w logdirs) = Inr ([(k, m)], [(k, Num x)])"
    using assms(1) f sw[of "([], [])"] by auto
  then have "find_best w logdirs ew
               = Inr \<lparr>policies = unstack [(k, m)], winrates = unstack [(k, Num x)]\<rparr>"
    by (simp add: find_best_discovered)
  then have 1: "\<exists>res. find_best w logdirs ew = Inr res
            \<and> leaf (winrates res) k = Some (Num (max a b))
            \<and> leaf (policies res) k = Some (if a < b then mb else ma)"
    by (simp add: leaf_unstack_single x m)
  have 2: "find_best w ms ew = find_best w ms' ew"
    if "discovered w ms = pre @ [pa, pb] @ post" "discovered w ms' = pre @ [pb, pa] @ post"
    using find_best_swap[OF that sw] .
  from 1 2 show ?thesis by blast
qed

lemma discovered_ab:
  "discovered world_ab [''/data/multi_train/a'', ''/data/multi_train/b''] = [path_a, path_b]"
  "discovered world_ab [''/data/multi_train/b'', ''/data/multi_train/a''] = [path_b, path_a]"
  by (simp_all add: discovered_def world_ab_def run_dir_def join2_def path_split_def
      slice_from_def path_a_def path_b_def)

theorem best_of_two_order_independent_witness:
  "discovered world_ab [''/data/multi_train/a'', ''/data/multi_train/b''] = [path_a, path_b]
   \<and> discovered world_ab [''/data/multi_train/b'', ''/data/multi_train/a''] = [path_b, path_a]
   \<and> read_entry world_ab 50 path_a = Inr (key_ab, Num 0.625)
   \<and> read_entry world_ab 50 path_b = Inr (key_ab, Num 0.75)
   \<and> (\<exists>res. find_best world_ab [''/data/multi_train/a'', ''/data/multi_train/b''] 50 = Inr res
          \<and> find_best world_ab [''/data/multi_train/b'', ''/data/multi_train/a''] 50 = Inr res
          \<and> leaf (winrates res) key_ab = Some (Num 0.75)
          \<and> leaf (policies res) key_ab = Some ''multi_train/b/baselines/1/final_model'')"
proof -
  let ?ab = "[''/data/multi_train/a'', ''/data/multi_train/b'']"
  let ?ba = "[''/data/multi_train/b'', ''/data/multi_train/a'']"
  have n: "(0.625::real) \<noteq> 0.75" "(0::real) \<le> 0.625" "(0::real) \<le> 0.75" by simp_all
  have d: "discovered world_ab ?ab = [path_a, path_b] \<or> discovered world_ab ?ab = [path_b, path_a]"
    by (simp add: discovered_ab)
  note t = best_of_two_order_independent[OF d read_entry_a read_entry_b model_path_a model_path_b n,
      of ?ab "[]" "[]" ?ba]
  from t obtain res where r: "find_best world_ab ?ab 50 = Inr res"
      "leaf (winrates res) key_ab = Some (Num (max 0.625 0.75))"
      "leaf (policies res) key_ab = Some (if (0.625::real) < 0.75 then ''multi_train/b/baselines/1/final_model''
         else ''multi_train/a/baselines/1/final_model'')"
    by blast
  from t have "find_best world_ab ?ab 50 = find_best world_ab ?ba 50"
    by (simp add: discovered_ab)
  with r show ?thesis
    by (auto simp: discovered_ab read_entry_a read_entry_b)
qed

end
